theory Spec2Isabelle
  imports Complex_Main "HOL-Library.Word" "HOL-Library.Sublist"
begin

section \<open>Values, faults and observable events\<close>

text \<open>
  A C \<^verbatim>\<open>float\<close> is modelled by its value: a sign and a non-negative magnitude for a finite
  number, or one of the non-finite values. Binary rounding is not modelled; the only
  conversion the bridge performs itself (16-bit sample to \<^verbatim>\<open>float\<close>) is exact.
\<close>

datatype cfloat = FFinite bool real | FInf bool | FNaN bool

text \<open>
  What in C++ is undefined behaviour, a thrown exception or a call of \<^verbatim>\<open>exit\<close> is a value
  of type \<open>fault\<close>.
\<close>

datatype fault =
    IndexOutOfBounds
  | StdInvalidArgument
  | StdOutOfRange
  | ProcessExit int

datatype logarg = ArgInt int | ArgStr string

text \<open>
  The externally visible actions of the two threads: operations on \<^verbatim>\<open>g_mutex\<close>, calls into
  the device SDK (with the code the SDK returned), the store to \<^verbatim>\<open>g_triggerArmed\<close> made by
  the data-plane thread, socket traffic and log lines (format string and arguments).
\<close>

datatype event =
    MutexLock
  | MutexUnlock
  | TriggerAcquisition int
  | GetFrame int
  | SetExposure real int
  | StoreArmed bool
  | SleepUs nat
  | SendLooped "cfloat list" nat
  | SendReply string
  | LogError string "logarg list"
  | LogDebug string "logarg list"

abbreviation nl :: char where "nl \<equiv> CHR 0x0A"

section \<open>Shared acquisition state\<close>

text \<open>
  The control plane and the data plane communicate through three global flags:
  \<^verbatim>\<open>g_triggerArmed\<close>, \<^verbatim>\<open>g_triggerOneShot\<close> and \<^verbatim>\<open>g_waveformThreadQuit\<close>.
\<close>

record acq_state =
  g_triggerArmed :: bool
  g_triggerOneShot :: bool
  g_waveformThreadQuit :: bool

definition AcquisitionStart :: "bool \<Rightarrow> acq_state \<Rightarrow> acq_state" where
  "AcquisitionStart oneShot s = s\<lparr>g_triggerArmed := True, g_triggerOneShot := oneShot\<rparr>"

definition AcquisitionForceTrigger :: "acq_state \<Rightarrow> acq_state" where
  "AcquisitionForceTrigger s = s\<lparr>g_triggerArmed := True\<rparr>"

definition AcquisitionStop :: "acq_state \<Rightarrow> acq_state" where
  "AcquisitionStop s = s\<lparr>g_triggerArmed := False\<rparr>"

section \<open>Data-plane thread\<close>

text \<open>
  \<^verbatim>\<open>g_numPixels\<close> is an \<^verbatim>\<open>int\<close> initialised to 3653 and never assigned; the functions below
  take the pixel count as a parameter \<open>P\<close>. The raw frame buffer has \<^verbatim>\<open>framesize\<close> cells.
\<close>

definition g_numPixels :: nat where
  "g_numPixels = 3653"

definition framesize :: nat where
  "framesize = 3699"

text \<open>\<^verbatim>\<open>sizeof(float)\<close>, for the 32-bit \<^verbatim>\<open>float\<close> of the supported platforms.\<close>

definition sizeof_float :: nat where
  "sizeof_float = 4"

text \<open>The implicit conversion of \<^verbatim>\<open>frameFlattened[i] = framePixels[i+32]\<close>.\<close>

definition float_of_uint16 :: "16 word \<Rightarrow> cfloat" where
  "float_of_uint16 w = FFinite False (real (unat w))"

text \<open>
  The flattening loop \<^verbatim>\<open>for(int i=0; i<g_numPixels; i++)\<close>, run over the indices
  \<open>[0..<P]\<close>; a read past the end of the frame buffer is a fault.
\<close>

fun flatten_loop :: "16 word list \<Rightarrow> nat list \<Rightarrow> cfloat list \<Rightarrow> fault + cfloat list" where
  "flatten_loop framePixels [] frameFlattened = Inr frameFlattened"
| "flatten_loop framePixels (i # is) frameFlattened =
     (if i + 32 < length framePixels
      then flatten_loop framePixels is (frameFlattened @ [float_of_uint16 (framePixels ! (i + 32))])
      else Inl IndexOutOfBounds)"

definition flatten :: "nat \<Rightarrow> 16 word list \<Rightarrow> fault + cfloat list" where
  "flatten P framePixels = flatten_loop framePixels [0..<P] []"

text \<open>What the device SDK and the socket answer during one pass of the loop.\<close>

record dev_io =
  trigger_err :: int
  getFrame_err :: int
  getFrame_pixels :: "16 word list"
  send_ok :: bool

datatype loop_ctl = Continue | Break | Faulted fault

text \<open>
  One pass of \<^verbatim>\<open>while(!g_waveformThreadQuit)\<close> in \<^verbatim>\<open>WaveformServerThread\<close>: the loop test, the
  armed check, the block under \<^verbatim>\<open>lock_guard<mutex> lock(g_mutex)\<close> (left by \<^verbatim>\<open>break\<close> on a
  failed \<^verbatim>\<open>getFrame\<close>, which releases the guard), then flattening and sending outside
  the lock. The flags are the values the pass reads. Accepting the data client before the
  loop and freeing the buffers after it touch neither the flags nor the device.
\<close>

definition WaveformServerThread_pass :: "nat \<Rightarrow> acq_state \<Rightarrow> dev_io \<Rightarrow> event list \<times> acq_state \<times> loop_ctl" where
  "WaveformServerThread_pass P s io =
    (if g_waveformThreadQuit s then ([], s, Break)
     else if \<not> g_triggerArmed s then ([SleepUs 1000], s, Continue)
     else
       let ev_trig =
             [MutexLock, TriggerAcquisition (trigger_err io)] @
             (if trigger_err io \<noteq> 0
              then [LogError (''failed to trigger acquisition, code %d'' @ [nl]) [ArgInt (trigger_err io)]]
              else []) @
             [GetFrame (getFrame_err io)]
       in
         if getFrame_err io \<noteq> 0 then
           (ev_trig @
              [LogError (''failed to get frame, code %d'' @ [nl]) [ArgInt (getFrame_err io)],
               MutexUnlock],
            s, Break)
         else
           let s' = (if g_triggerOneShot s then s\<lparr>g_triggerArmed := False\<rparr> else s);
               ev_acq = ev_trig @ (if g_triggerOneShot s then [StoreArmed False] else []) @ [MutexUnlock]
           in
             case flatten P (getFrame_pixels io) of
               Inl f \<Rightarrow> (ev_acq, s', Faulted f)
             | Inr frameFlattened \<Rightarrow>
                 (ev_acq @ [SendLooped frameFlattened (P * sizeof_float)], s',
                  if send_ok io then Continue else Break))"

text \<open>
  The loop, with no interference from the control plane: each pass starts from the flags
  the previous one left. One \<open>dev_io\<close> is consumed per pass.
\<close>

fun WaveformServerThread_loop :: "nat \<Rightarrow> acq_state \<Rightarrow> dev_io list \<Rightarrow> event list \<times> acq_state" where
  "WaveformServerThread_loop P s [] = ([], s)"
| "WaveformServerThread_loop P s (io # ios) =
     (case WaveformServerThread_pass P s io of
        (evs, s', Continue) \<Rightarrow> (let (evs', s'') = WaveformServerThread_loop P s' ios in (evs @ evs', s''))
      | (evs, s', _) \<Rightarrow> (evs, s'))"

text \<open>
  The events of the thread when the control plane runs concurrently: the \<open>k\<close>-th pass reads
  the flags as the \<open>k\<close>-th state gives them (each flag is read at most once per pass).
\<close>

fun WaveformServerThread_events :: "nat \<Rightarrow> (acq_state \<times> dev_io) list \<Rightarrow> event list" where
  "WaveformServerThread_events P [] = []"
| "WaveformServerThread_events P ((s, io) # envs) =
     (case WaveformServerThread_pass P s io of
        (evs, _, Continue) \<Rightarrow> evs @ WaveformServerThread_events P envs
      | (evs, _, _) \<Rightarrow> evs)"

section \<open>Text formatting of the C library\<close>

text \<open>
  The replies are built with \<^verbatim>\<open>snprintf\<close> and \<^verbatim>\<open>std::to_string\<close>. Their conversions are
  modelled for the C locale: \<open>printf_f prec\<close> is \<^verbatim>\<open>%.<prec>f\<close>, the decimal expansion rounded
  to \<open>prec\<close> places, ties to even.
\<close>

definition digit_char :: "nat \<Rightarrow> char" where
  "digit_char d = ''0123456789'' ! d"

fun dec_digits :: "nat \<Rightarrow> string" where
  "dec_digits n = (if n < 10 then [digit_char n] else dec_digits (n div 10) @ [digit_char (n mod 10)])"

fun frac_digits :: "nat \<Rightarrow> nat \<Rightarrow> string" where
  "frac_digits 0 m = []"
| "frac_digits (Suc k) m = frac_digits k (m div 10) @ [digit_char (m mod 10)]"

definition round_half_even :: "real \<Rightarrow> nat" where
  "round_half_even x =
     (let f = nat \<lfloor>x\<rfloor>; r = x - real f
      in if r < 1 / 2 then f else if 1 / 2 < r then f + 1 else if even f then f else f + 1)"

fun printf_f :: "nat \<Rightarrow> cfloat \<Rightarrow> string" where
  "printf_f prec (FFinite neg m) =
     (let scaled = round_half_even (m * 10 ^ prec)
      in (if neg then ''-'' else []) @ dec_digits (scaled div 10 ^ prec) @
         (if prec = 0 then [] else ''.'' @ frac_digits prec (scaled mod 10 ^ prec)))"
| "printf_f prec (FInf neg) = (if neg then ''-inf'' else ''inf'')"
| "printf_f prec (FNaN neg) = (if neg then ''-nan'' else ''nan'')"

text \<open>\<^verbatim>\<open>snprintf(tmp, sizeof(tmp), "%.3f,", x)\<close> with \<^verbatim>\<open>char tmp[128]\<close>: at most 127 characters are kept.\<close>

definition snprintf_3f_comma :: "cfloat \<Rightarrow> string" where
  "snprintf_3f_comma x = take 127 (printf_f 3 x @ '','')"

text \<open>\<^verbatim>\<open>std::to_string\<close> of an \<^verbatim>\<open>int\<close> that is not negative, and of a floating-point number (\<^verbatim>\<open>%f\<close>).\<close>

definition to_string_int :: "nat \<Rightarrow> string" where
  "to_string_int n = dec_digits n"

definition to_string_float :: "cfloat \<Rightarrow> string" where
  "to_string_float x = printf_f 6 x"

section \<open>Calibration data\<close>

text \<open>
  The global calibration variables. \<^verbatim>\<open>g_absCal\<close> and \<^verbatim>\<open>g_absResponse\<close> are only read by the
  query handler; \<^verbatim>\<open>ReadCalData\<close> does not assign them.
\<close>

record cal_data =
  g_model :: string
  g_serial :: string
  g_wavelengths :: "cfloat list"
  g_sensorResponse :: "cfloat list"
  g_absCal :: cfloat
  g_absResponse :: "cfloat list"

definition ncal :: nat where
  "ncal = 97264"

fun explode_loop :: "string \<Rightarrow> char \<Rightarrow> string \<Rightarrow> string list \<Rightarrow> string list" where
  "explode_loop [] separator tmp ret = (if tmp \<noteq> [] then ret @ [tmp] else ret)"
| "explode_loop (c # str) separator tmp ret =
     (if c = separator
      then explode_loop str separator [] (if tmp \<noteq> [] then ret @ [tmp] else ret)
      else explode_loop str separator (tmp @ [c]) ret)"

definition explode :: "string \<Rightarrow> char \<Rightarrow> string list" where
  "explode str separator = explode_loop str separator [] []"

text \<open>\<^verbatim>\<open>isspace\<close> in the C locale: space, \<^verbatim>\<open>\t \n \v \f \r\<close>.\<close>

definition isspace :: "char \<Rightarrow> bool" where
  "isspace c = (c \<in> {CHR '' '', CHR 0x09, CHR 0x0A, CHR 0x0B, CHR 0x0C, CHR 0x0D})"

fun Trim_loop :: "string \<Rightarrow> string \<Rightarrow> string \<Rightarrow> string" where
  "Trim_loop [] ret tmp = ret"
| "Trim_loop (c # str) ret tmp =
     (if \<not> isspace c then Trim_loop str (ret @ tmp @ [c]) [] else Trim_loop str ret (tmp @ [c]))"

definition Trim :: "string \<Rightarrow> string" where
  "Trim str = Trim_loop (dropWhile isspace str) [] []"

text \<open>\<^verbatim>\<open>operator[]\<close> of a vector: an index past the size is undefined behaviour.\<close>

definition at_index :: "'a list \<Rightarrow> nat \<Rightarrow> fault + 'a" where
  "at_index xs i = (if i < length xs then Inr (xs ! i) else Inl IndexOutOfBounds)"

text \<open>Sequencing: the first fault ends the function.\<close>

definition then_do :: "fault + 'a \<Rightarrow> ('a \<Rightarrow> fault + 'b) \<Rightarrow> fault + 'b" where
  "then_do m k = (case m of Inl f \<Rightarrow> Inl f | Inr x \<Rightarrow> k x)"

text \<open>
  The table loops \<^verbatim>\<open>for(int i=0; i<g_numPixels; i++) vec.push_back(atof(lines[i+off].c_str()))\<close>.
  \<open>atof\<close> stands for the C library's conversion followed by the narrowing to \<^verbatim>\<open>float\<close>.
\<close>

fun read_table :: "(string \<Rightarrow> cfloat) \<Rightarrow> string list \<Rightarrow> nat \<Rightarrow> nat list \<Rightarrow> cfloat list \<Rightarrow> fault + cfloat list" where
  "read_table atof lines off [] vec = Inr vec"
| "read_table atof lines off (i # is) vec =
     (if i + off < length lines
      then read_table atof lines off is (vec @ [atof (lines ! (i + off))])
      else Inl IndexOutOfBounds)"

text \<open>
  \<^verbatim>\<open>ReadCalData\<close>. \<open>err\<close> and \<open>buf\<close> are what \<^verbatim>\<open>readFlash\<close> returned and stored; the string is
  cut at the first NUL. Every read of a vector is checked, also those made only to log a
  value (\<^verbatim>\<open>g_wavelengths[0]\<close>, \<^verbatim>\<open>g_wavelengths[g_numPixels-1]\<close>, \<^verbatim>\<open>g_sensorResponse[2365]\<close>, ...);
  the log lines themselves are left out.
\<close>

definition ReadCalData :: "(string \<Rightarrow> cfloat) \<Rightarrow> nat \<Rightarrow> int \<Rightarrow> string \<Rightarrow> cal_data \<Rightarrow> fault + cal_data" where
  "ReadCalData atof P err buf cal =
    (if err \<noteq> 0 then Inl (ProcessExit 1)
     else
       let sbuf = takeWhile (\<lambda>c. c \<noteq> CHR 0x00) (take ncal buf);
           lines = explode sbuf nl
       in
       then_do (at_index lines 0) (\<lambda>line0.
       let firstFields = explode line0 CHR '' '' in
       then_do (at_index firstFields 0) (\<lambda>field0.
       then_do (at_index firstFields 2) (\<lambda>field2.
       then_do (at_index firstFields 1) (\<lambda>field1.
       then_do (read_table atof lines 12 [0..<P] (g_wavelengths cal)) (\<lambda>wavelengths.
       then_do (at_index wavelengths 0) (\<lambda>_.
       then_do (if P = 0 then Inl IndexOutOfBounds else at_index wavelengths (P - 1)) (\<lambda>_.
       then_do (read_table atof lines (13 + P) [0..<P] (g_sensorResponse cal)) (\<lambda>sensorResponse.
       then_do (at_index sensorResponse 0) (\<lambda>_.
       then_do (at_index sensorResponse 2365) (\<lambda>_.
       then_do (at_index sensorResponse (P - 1)) (\<lambda>_.
       Inr (cal\<lparr>g_model := Trim field0, g_serial := Trim field2,
                g_wavelengths := wavelengths, g_sensorResponse := sensorResponse\<rparr>)))))))))))))"

text \<open>
  A stand-in for \<^verbatim>\<open>atof\<close> on plain decimals (optional sign, digits, optional fraction), used
  only to run the model on concrete blobs.
\<close>

definition is_digit :: "char \<Rightarrow> bool" where
  "is_digit c = (c \<in> set ''0123456789'')"

definition digit_value :: "char \<Rightarrow> nat" where
  "digit_value c = (of_char c :: nat) - 48"

definition digits_value :: "string \<Rightarrow> nat" where
  "digits_value ds = foldl (\<lambda>acc c. 10 * acc + digit_value c) 0 ds"

definition atof_plain :: "string \<Rightarrow> cfloat" where
  "atof_plain s =
     (let t = dropWhile isspace s;
          neg = (t \<noteq> [] \<and> hd t = CHR ''-'');
          u = (if t \<noteq> [] \<and> (hd t = CHR ''-'' \<or> hd t = CHR ''+'') then tl t else t);
          ip = takeWhile is_digit u;
          r = dropWhile is_digit u;
          fp = (if r \<noteq> [] \<and> hd r = CHR ''.'' then takeWhile is_digit (tl r) else [])
      in FFinite neg (real (digits_value ip) + real (digits_value fp) / 10 ^ length fp))"

text \<open>
  Parsing twice: a second \<^verbatim>\<open>ReadCalData\<close> on the state the first one left. The lengths of
  the two vectors after a parse.
\<close>

definition parse_twice :: "(string \<Rightarrow> cfloat) \<Rightarrow> nat \<Rightarrow> int \<Rightarrow> string \<Rightarrow> cal_data \<Rightarrow> fault + cal_data" where
  "parse_twice atof P err buf cal = then_do (ReadCalData atof P err buf cal) (ReadCalData atof P err buf)"

definition vector_lengths :: "fault + cal_data \<Rightarrow> (nat \<times> nat) option" where
  "vector_lengths r =
     (case r of Inl f \<Rightarrow> None | Inr c \<Rightarrow> Some (length (g_wavelengths c), length (g_sensorResponse c)))"

text \<open>
  The calibration variables before \<^verbatim>\<open>ReadCalData\<close> runs, and a flash image in the documented
  layout: a header line, eleven further lines, one wavelength line per pixel, a
  separator line, one response line per pixel, NUL bytes up to the size of the flash.
\<close>

definition empty_cal :: cal_data where
  "empty_cal = \<lparr>g_model = [], g_serial = [], g_wavelengths = [], g_sensorResponse = [],
                 g_absCal = FFinite False 0, g_absResponse = []\<rparr>"

definition example_lines :: "string list" where
  "example_lines =
     ''LR1 c.N 1234'' # replicate 11 ''0'' @ replicate g_numPixels ''500.5'' @
     ''0'' # replicate g_numPixels ''1.0''"

definition example_text :: string where
  "example_text = concat (map (\<lambda>l. l @ [nl]) example_lines)"

definition example_blob :: string where
  "example_blob = example_text @ replicate (ncal - length example_text) (CHR 0x00)"

section \<open>Control plane\<close>

text \<open>
  The formatting loops of \<^verbatim>\<open>OnQuery\<close>: \<^verbatim>\<open>for(int i=0; i<g_numPixels; i++)\<close> appends the
  formatted \<open>vec[i]\<close> to the reply.
\<close>

fun format_loop :: "cfloat list \<Rightarrow> nat list \<Rightarrow> string \<Rightarrow> fault + string" where
  "format_loop vec [] reply = Inr reply"
| "format_loop vec (i # is) reply =
     (if i < length vec then format_loop vec is (reply @ snprintf_3f_comma (vec ! i))
      else Inl IndexOutOfBounds)"

text \<open>
  \<^verbatim>\<open>AseqSCPIServer::OnQuery\<close>. \<open>base\<close> tells whether \<^verbatim>\<open>BridgeSCPIServer::OnQuery\<close> of the external
  server library handled the query (its own replies are not modelled).
\<close>

definition OnQuery :: "(string \<Rightarrow> string \<Rightarrow> string \<Rightarrow> bool) \<Rightarrow> nat \<Rightarrow> cal_data \<Rightarrow>
    string \<Rightarrow> string \<Rightarrow> string \<Rightarrow> event list \<times> (fault + bool)" where
  "OnQuery base P cal line subject cmd =
    (if base line subject cmd then ([], Inr True)
     else if cmd = ''POINTS'' then ([SendReply (to_string_int P)], Inr False)
     else if cmd = ''WAVELENGTHS'' then
       (case format_loop (g_wavelengths cal) [0..<P] [] of
          Inl f \<Rightarrow> ([], Inl f)
        | Inr wavelengths \<Rightarrow> ([SendReply wavelengths], Inr False))
     else if cmd = ''FLATCAL'' then
       (case format_loop (g_sensorResponse cal) [0..<P] [] of
          Inl f \<Rightarrow> ([], Inl f)
        | Inr flatcal \<Rightarrow> ([SendReply flatcal], Inr False))
     else if cmd = ''IRRCOEFF'' then ([SendReply (to_string_float (g_absCal cal))], Inr False)
     else if cmd = ''IRRCAL'' then
       (case format_loop (g_absResponse cal) [0..<P] [] of
          Inl f \<Rightarrow> ([], Inl f)
        | Inr irrcal \<Rightarrow> ([SendReply irrcal], Inr False))
     else ([LogDebug (''Unrecognized query received: %s'' @ [nl]) [ArgStr line]], Inr False))"

text \<open>
  What \<^verbatim>\<open>BridgeSCPIServer::OnCommand\<close> of the external server library does with a command it
  handles: it calls one of the virtual functions that \<^verbatim>\<open>AseqSCPIServer\<close> overrides. All but
  the three acquisition functions have empty bodies.
\<close>

datatype base_call =
    CallAcquisitionStart bool
  | CallAcquisitionForceTrigger
  | CallAcquisitionStop
  | CallEmptyOverride

fun run_base_call :: "base_call \<Rightarrow> acq_state \<Rightarrow> acq_state" where
  "run_base_call (CallAcquisitionStart oneShot) s = AcquisitionStart oneShot s"
| "run_base_call CallAcquisitionForceTrigger s = AcquisitionForceTrigger s"
| "run_base_call CallAcquisitionStop s = AcquisitionStop s"
| "run_base_call CallEmptyOverride s = s"

type_synonym base_dispatcher = "string \<Rightarrow> string \<Rightarrow> string \<Rightarrow> string list \<Rightarrow> base_call option"

text \<open>
  \<^verbatim>\<open>AseqSCPIServer::OnCommand\<close>. \<open>stod\<close> is \<^verbatim>\<open>std::stod\<close> (it throws where it gives \<open>Inl\<close>) and
  \<open>setExposure\<close> the code the device SDK returns for an exposure. The result is the events,
  the flags, and either the returned value or the fault that leaves the function.
  \<^verbatim>\<open>args[0]\<close> of an empty vector is undefined behaviour; an exception of \<^verbatim>\<open>stod\<close> releases
  the guard while it unwinds.
\<close>

definition OnCommand :: "base_dispatcher \<Rightarrow> (string \<Rightarrow> fault + real) \<Rightarrow> (real \<Rightarrow> int) \<Rightarrow> acq_state \<Rightarrow>
    string \<Rightarrow> string \<Rightarrow> string \<Rightarrow> string list \<Rightarrow> event list \<times> acq_state \<times> (fault + bool)" where
  "OnCommand base stod setExposure s line subject cmd args =
    (case base line subject cmd args of
       Some c \<Rightarrow> ([], run_base_call c s, Inr True)
     | None \<Rightarrow>
         if cmd = ''EXPOSURE'' then
           (case at_index args 0 of
              Inl f \<Rightarrow> ([MutexLock], s, Inl f)
            | Inr arg0 \<Rightarrow>
                (case stod arg0 of
                   Inl f \<Rightarrow> ([MutexLock, MutexUnlock], s, Inl f)
                 | Inr v \<Rightarrow>
                     let exposure = v * (1 / 10 ^ 10);
                         err = setExposure exposure
                     in ([MutexLock, SetExposure exposure err] @
                         (if err \<noteq> 0
                          then [LogError (''failed to set exposure, code %d'' @ [nl]) [ArgInt err]]
                          else []) @
                         [MutexUnlock],
                         s, Inr True)))
         else ([LogError (''Unrecognized command %s'' @ [nl]) [ArgStr line]], s, Inr True))"

text \<open>
  The events of the control-plane thread over a sequence of lines. A command comes with the
  flags it finds and the answer of the device. Nothing is modelled after undefined
  behaviour. An exception is taken as caught by the caller of \<^verbatim>\<open>OnCommand\<close>, which then
  goes on; the events of a caller that does not catch it are a prefix of these.
\<close>

datatype control_line =
    Command acq_state "real \<Rightarrow> int" string string string "string list"
  | Query string string string

fun line_events :: "base_dispatcher \<Rightarrow> (string \<Rightarrow> string \<Rightarrow> string \<Rightarrow> bool) \<Rightarrow> (string \<Rightarrow> fault + real) \<Rightarrow>
    nat \<Rightarrow> cal_data \<Rightarrow> control_line \<Rightarrow> event list \<times> (fault + bool)" where
  "line_events base qbase stod P cal (Command s setExposure line subject cmd args) =
     (case OnCommand base stod setExposure s line subject cmd args of (evs, _, r) \<Rightarrow> (evs, r))"
| "line_events base qbase stod P cal (Query line subject cmd) = OnQuery qbase P cal line subject cmd"

fun control_events :: "base_dispatcher \<Rightarrow> (string \<Rightarrow> string \<Rightarrow> string \<Rightarrow> bool) \<Rightarrow> (string \<Rightarrow> fault + real) \<Rightarrow>
    nat \<Rightarrow> cal_data \<Rightarrow> control_line list \<Rightarrow> event list" where
  "control_events base qbase stod P cal [] = []"
| "control_events base qbase stod P cal (l # ls) =
     (case line_events base qbase stod P cal l of
        (evs, Inl IndexOutOfBounds) \<Rightarrow> evs
      | (evs, _) \<Rightarrow> evs @ control_events base qbase stod P cal ls)"

section \<open>Executions of the two threads\<close>

text \<open>
  An execution is a sequence of events, each tagged with the thread that performs it. It
  respects \<^verbatim>\<open>g_mutex\<close> when a thread locks only the free mutex and unlocks only the mutex it
  holds; a thread's own events are the subsequence with its tag.
\<close>

datatype tid = Streamer | Control

fun mutex_ok :: "tid option \<Rightarrow> (tid \<times> event) list \<Rightarrow> bool" where
  "mutex_ok holder [] = True"
| "mutex_ok holder ((t, MutexLock) # tr) = (holder = None \<and> mutex_ok (Some t) tr)"
| "mutex_ok holder ((t, MutexUnlock) # tr) = (holder = Some t \<and> mutex_ok None tr)"
| "mutex_ok holder (_ # tr) = mutex_ok holder tr"

definition events_of :: "tid \<Rightarrow> (tid \<times> event) list \<Rightarrow> event list" where
  "events_of t tr = map snd (filter (\<lambda>x. fst x = t) tr)"

text \<open>
  Serialized device access: \<open>inflight\<close> says that an acquisition has been triggered and not
  yet fetched. No acquisition is triggered while one is in flight, every fetch ends one,
  and no exposure is set while one is in flight.
\<close>

fun serialized :: "bool \<Rightarrow> (tid \<times> event) list \<Rightarrow> bool" where
  "serialized inflight [] = True"
| "serialized inflight ((t, TriggerAcquisition e) # tr) = (\<not> inflight \<and> serialized True tr)"
| "serialized inflight ((t, GetFrame e) # tr) = (inflight \<and> serialized False tr)"
| "serialized inflight ((t, SetExposure x e) # tr) = (\<not> inflight \<and> serialized inflight tr)"
| "serialized inflight (_ # tr) = serialized inflight tr"

text \<open>
  The locking discipline of each thread, as an automaton over its own events. The data
  plane triggers and fetches only inside one critical section and never sets the exposure;
  the control plane sets the exposure only inside a critical section and never acquires.
\<close>

datatype sphase = SOut | SIn | SFlight

fun streamer_disc :: "sphase \<Rightarrow> event list \<Rightarrow> bool" where
  "streamer_disc q [] = True"
| "streamer_disc q (MutexLock # es) = (q = SOut \<and> streamer_disc SIn es)"
| "streamer_disc q (MutexUnlock # es) = (q = SIn \<and> streamer_disc SOut es)"
| "streamer_disc q (TriggerAcquisition e # es) = (q = SIn \<and> streamer_disc SFlight es)"
| "streamer_disc q (GetFrame e # es) = (q = SFlight \<and> streamer_disc SIn es)"
| "streamer_disc q (SetExposure x e # es) = False"
| "streamer_disc q (_ # es) = streamer_disc q es"

fun control_disc :: "bool \<Rightarrow> event list \<Rightarrow> bool" where
  "control_disc h [] = True"
| "control_disc h (MutexLock # es) = (\<not> h \<and> control_disc True es)"
| "control_disc h (MutexUnlock # es) = (h \<and> control_disc False es)"
| "control_disc h (SetExposure x e # es) = (h \<and> control_disc h es)"
| "control_disc h (TriggerAcquisition e # es) = False"
| "control_disc h (GetFrame e # es) = False"
| "control_disc h (_ # es) = control_disc h es"

section \<open>Predicates used in the statements\<close>

fun is_device_call :: "event \<Rightarrow> bool" where
  "is_device_call (TriggerAcquisition e) = True"
| "is_device_call (GetFrame e) = True"
| "is_device_call (SetExposure x e) = True"
| "is_device_call _ = False"

fun is_fetch :: "event \<Rightarrow> bool" where
  "is_fetch (GetFrame e) = True"
| "is_fetch _ = False"

fun is_send :: "event \<Rightarrow> bool" where
  "is_send (SendLooped payload nbytes) = True"
| "is_send _ = False"

text \<open>The largest finite \<^verbatim>\<open>float\<close>, and the finite values of the type.\<close>

definition FLT_MAX :: real where
  "FLT_MAX = (2 ^ 24 - 1) * 2 ^ 104"

fun is_finite_float :: "cfloat \<Rightarrow> bool" where
  "is_finite_float (FFinite neg m) = (0 \<le> m \<and> m \<le> FLT_MAX)"
| "is_finite_float _ = False"

text \<open>
  A token of a reply: an optional minus sign, at least one digit, a point, exactly three
  digits and the terminating comma.
\<close>

definition is_decimal3_token :: "string \<Rightarrow> bool" where
  "is_decimal3_token t =
     (let u = (if t \<noteq> [] \<and> hd t = CHR ''-'' then tl t else t);
          ip = takeWhile is_digit u;
          r = dropWhile is_digit u
      in ip \<noteq> [] \<and> length r = 5 \<and> r ! 0 = CHR ''.'' \<and> is_digit (r ! 1) \<and>
         is_digit (r ! 2) \<and> is_digit (r ! 3) \<and> r ! 4 = CHR '','')"

text \<open>The vector each of the three per-pixel queries reads.\<close>

definition queried_vector :: "string \<Rightarrow> cal_data \<Rightarrow> cfloat list" where
  "queried_vector cmd cal =
     (if cmd = ''WAVELENGTHS'' then g_wavelengths cal
      else if cmd = ''FLATCAL'' then g_sensorResponse cal
      else g_absResponse cal)"

text \<open>The values a table loop appends: one per pixel, read from the lines at an offset.\<close>

definition table_values :: "(string \<Rightarrow> cfloat) \<Rightarrow> string list \<Rightarrow> nat \<Rightarrow> nat \<Rightarrow> cfloat list" where
  "table_values atof lines off P = map (\<lambda>i. atof (lines ! (i + off))) [0..<P]"

definition cal_lines :: "string \<Rightarrow> string list" where
  "cal_lines buf = explode (takeWhile (\<lambda>c. c \<noteq> CHR 0x00) (take ncal buf)) nl"

section \<open>The data-plane thread in small steps\<close>

text \<open>
  The same loop of \<^verbatim>\<open>WaveformServerThread\<close>, one statement at a time, so that writes of the
  control plane to the flags can fall between two statements. The position in the loop
  body and the frame buffer are local to the thread; the flags are shared.
\<close>

datatype spc =
    AtLoopTest
  | AtArmedCheck
  | AtLock
  | AtTrigger
  | AtGetFrame
  | AtOneShot
  | AtUnlock
  | AtSend
  | AtExit
  | AtFault fault

fun streamer_step :: "nat \<Rightarrow> acq_state \<Rightarrow> spc \<Rightarrow> 16 word list \<Rightarrow> dev_io \<Rightarrow>
    event list \<times> acq_state \<times> spc \<times> 16 word list" where
  "streamer_step P s AtLoopTest framePixels io =
     ([], s, if g_waveformThreadQuit s then AtExit else AtArmedCheck, framePixels)"
| "streamer_step P s AtArmedCheck framePixels io =
     (if \<not> g_triggerArmed s then ([SleepUs 1000], s, AtLoopTest, framePixels)
      else ([], s, AtLock, framePixels))"
| "streamer_step P s AtLock framePixels io = ([MutexLock], s, AtTrigger, framePixels)"
| "streamer_step P s AtTrigger framePixels io =
     ([TriggerAcquisition (trigger_err io)] @
      (if trigger_err io \<noteq> 0
       then [LogError (''failed to trigger acquisition, code %d'' @ [nl]) [ArgInt (trigger_err io)]]
       else []),
      s, AtGetFrame, framePixels)"
| "streamer_step P s AtGetFrame framePixels io =
     (if getFrame_err io \<noteq> 0
      then ([GetFrame (getFrame_err io),
             LogError (''failed to get frame, code %d'' @ [nl]) [ArgInt (getFrame_err io)],
             MutexUnlock],
            s, AtExit, getFrame_pixels io)
      else ([GetFrame (getFrame_err io)], s, AtOneShot, getFrame_pixels io))"
| "streamer_step P s AtOneShot framePixels io =
     (if g_triggerOneShot s then ([StoreArmed False], s\<lparr>g_triggerArmed := False\<rparr>, AtUnlock, framePixels)
      else ([], s, AtUnlock, framePixels))"
| "streamer_step P s AtUnlock framePixels io = ([MutexUnlock], s, AtSend, framePixels)"
| "streamer_step P s AtSend framePixels io =
     (case flatten P framePixels of
        Inl f \<Rightarrow> ([], s, AtFault f, framePixels)
      | Inr frameFlattened \<Rightarrow>
          ([SendLooped frameFlattened (P * sizeof_float)], s,
           if send_ok io then AtLoopTest else AtExit, framePixels))"
| "streamer_step P s AtExit framePixels io = ([], s, AtExit, framePixels)"
| "streamer_step P s (AtFault f) framePixels io = ([], s, AtFault f, framePixels)"

text \<open>
  The steps of one pass, run without interference from the loop test until the thread is
  back at the loop test or has left the loop.
\<close>

fun at_pass_end :: "spc \<Rightarrow> bool" where
  "at_pass_end AtLoopTest = True"
| "at_pass_end AtExit = True"
| "at_pass_end (AtFault f) = True"
| "at_pass_end _ = False"

fun steps_of_pass :: "nat \<Rightarrow> nat \<Rightarrow> acq_state \<Rightarrow> spc \<Rightarrow> 16 word list \<Rightarrow> dev_io \<Rightarrow>
    event list \<times> acq_state \<times> spc" where
  "steps_of_pass 0 P s pc framePixels io = ([], s, pc)"
| "steps_of_pass (Suc n) P s pc framePixels io =
     (case streamer_step P s pc framePixels io of
        (evs, s', pc', framePixels') \<Rightarrow>
          if at_pass_end pc' then (evs, s', pc')
          else (case steps_of_pass n P s' pc' framePixels' io of
                  (evs', s'', pc'') \<Rightarrow> (evs @ evs', s'', pc'')))"

fun pc_of_ctl :: "loop_ctl \<Rightarrow> spc" where
  "pc_of_ctl Continue = AtLoopTest"
| "pc_of_ctl Break = AtExit"
| "pc_of_ctl (Faulted f) = AtFault f"

text \<open>
  An interleaving of the two threads over the flags: a schedule names, in order, a step
  of the data-plane thread (with the answers of the device and the socket) or a call of
  one of the acquisition functions by the control plane. \<^verbatim>\<open>AcquisitionStart\<close>,
  \<^verbatim>\<open>AcquisitionForceTrigger\<close> and \<^verbatim>\<open>AcquisitionStop\<close> take no lock, so a call can fall between
  any two steps. The run records, for every step, where the thread was, the value of
  \<^verbatim>\<open>g_triggerArmed\<close> when the step began, and the events of the step.
\<close>

datatype sched = StreamerStep dev_io | ControlCall base_call

datatype obs = Stepped spc bool "event list" | Called base_call

fun interleave :: "nat \<Rightarrow> acq_state \<Rightarrow> spc \<Rightarrow> 16 word list \<Rightarrow> sched list \<Rightarrow> obs list" where
  "interleave P s pc framePixels [] = []"
| "interleave P s pc framePixels (StreamerStep io # sch) =
     (case streamer_step P s pc framePixels io of
        (evs, s', pc', framePixels') \<Rightarrow>
          Stepped pc (g_triggerArmed s) evs # interleave P s' pc' framePixels' sch)"
| "interleave P s pc framePixels (ControlCall c # sch) =
     Called c # interleave P (run_base_call c s) pc framePixels sch"

text \<open>
  Two properties of a run. The first is the claim read over states: no step that begins
  with the armed flag false calls the device. The second follows the passes: \<open>seen\<close> says
  that the armed check of the current pass read the flag true, and every step that calls
  the device lies in such a pass.
\<close>

fun unarmed_steps_idle :: "obs list \<Rightarrow> bool" where
  "unarmed_steps_idle [] = True"
| "unarmed_steps_idle (Called c # tr) = unarmed_steps_idle tr"
| "unarmed_steps_idle (Stepped pc armed evs # tr) =
     ((armed \<or> list_all (\<lambda>e. \<not> is_device_call e) evs) \<and> unarmed_steps_idle tr)"

fun calls_follow_armed_check :: "bool \<Rightarrow> obs list \<Rightarrow> bool" where
  "calls_follow_armed_check seen [] = True"
| "calls_follow_armed_check seen (Called c # tr) = calls_follow_armed_check seen tr"
| "calls_follow_armed_check seen (Stepped pc armed evs # tr) =
     ((seen \<or> list_all (\<lambda>e. \<not> is_device_call e) evs) \<and>
      calls_follow_armed_check
        (if pc = AtArmedCheck then armed else if pc = AtLoopTest then False else seen) tr)"

section \<open>The data-plane thread and the flags\<close>

subsection \<open>Auxiliary facts\<close>

lemma flatten_loop_in_range:
  "\<forall>i\<in>set idx. i + 32 < length fp \<Longrightarrow>
   flatten_loop fp idx out = Inr (out @ map (\<lambda>i. float_of_uint16 (fp ! (i + 32))) idx)"
  by (induction idx arbitrary: out) simp_all

lemma flatten_in_range:
  "P + 32 \<le> length fp \<Longrightarrow> flatten P fp = Inr (map (\<lambda>i. float_of_uint16 (fp ! (i + 32))) [0..<P])"
  unfolding flatten_def by (subst flatten_loop_in_range) auto

lemma WaveformServerThread_pass_unarmed:
  "\<not> g_triggerArmed s \<Longrightarrow>
   WaveformServerThread_pass P s io = (if g_waveformThreadQuit s then ([], s, Break) else ([SleepUs 1000], s, Continue))"
  by (simp add: WaveformServerThread_pass_def)

lemma WaveformServerThread_loop_unarmed:
  "\<not> g_triggerArmed s \<Longrightarrow>
   WaveformServerThread_loop P s ios = (if g_waveformThreadQuit s then [] else replicate (length ios) (SleepUs 1000), s)"
  by (induction ios) (simp_all add: WaveformServerThread_pass_unarmed)

lemma WaveformServerThread_pass_oneShot_unchanged:
  "g_triggerOneShot (fst (snd (WaveformServerThread_pass P s io))) = g_triggerOneShot s"
  by (simp add: WaveformServerThread_pass_def Let_def split: sum.splits)

lemma WaveformServerThread_pass_quit_unchanged:
  "g_waveformThreadQuit (fst (snd (WaveformServerThread_pass P s io))) = g_waveformThreadQuit s"
  by (simp add: WaveformServerThread_pass_def Let_def split: sum.splits)

lemma WaveformServerThread_pass_repeating:
  "\<not> g_triggerOneShot s \<Longrightarrow> fst (snd (WaveformServerThread_pass P s io)) = s"
  by (simp add: WaveformServerThread_pass_def Let_def split: sum.splits)

lemma WaveformServerThread_loop_repeating:
  "\<not> g_triggerOneShot s \<Longrightarrow> snd (WaveformServerThread_loop P s ios) = s"
proof (induction ios)
  case Nil
  then show ?case by simp
next
  case (Cons io ios)
  obtain evs s' c where p: "WaveformServerThread_pass P s io = (evs, s', c)"
    by (cases "WaveformServerThread_pass P s io") auto
  with Cons.prems have "s' = s"
    using WaveformServerThread_pass_repeating [of s P io] by simp
  with p Cons show ?case
    by (cases c) (simp_all add: split_beta)
qed

lemma WaveformServerThread_pass_one_shot_disarms:
  "\<not> g_waveformThreadQuit s \<Longrightarrow> g_triggerArmed s \<Longrightarrow> g_triggerOneShot s \<Longrightarrow> getFrame_err io = 0 \<Longrightarrow>
   \<not> g_triggerArmed (fst (snd (WaveformServerThread_pass P s io)))"
  by (simp add: WaveformServerThread_pass_def Let_def split: sum.splits)

lemma OnCommand_flags:
  "fst (snd (OnCommand base stod setExposure s line subject cmd args)) =
     (case base line subject cmd args of None \<Rightarrow> s | Some c \<Rightarrow> run_base_call c s)"
  by (simp add: OnCommand_def Let_def split: option.splits sum.splits)

lemma run_base_call_oneShot:
  "g_triggerOneShot (run_base_call c s) \<noteq> g_triggerOneShot s \<Longrightarrow> \<exists>b. c = CallAcquisitionStart b"
  by (cases c) (simp_all add: AcquisitionForceTrigger_def AcquisitionStop_def)

lemma device_frame_fits: "g_numPixels + 32 \<le> framesize"
  by (simp add: g_numPixels_def framesize_def)

subsection \<open>Polling while unarmed\<close>

text \<open>The small steps, run without interference, make up the pass.\<close>

lemma steps_of_pass_numeral:
  "steps_of_pass (numeral k) P s pc fp io =
     (case streamer_step P s pc fp io of
        (evs, s', pc', fp') \<Rightarrow>
          if at_pass_end pc' then (evs, s', pc')
          else (case steps_of_pass (pred_numeral k) P s' pc' fp' io of
                  (evs', s'', pc'') \<Rightarrow> (evs @ evs', s'', pc'')))"
  by (simp only: numeral_eq_Suc [of k] steps_of_pass.simps)

lemma steps_of_pass_is_pass:
  "steps_of_pass 8 P s AtLoopTest fp io =
     (case WaveformServerThread_pass P s io of (evs, s', c) \<Rightarrow> (evs, s', pc_of_ctl c))"
proof (cases "g_waveformThreadQuit s")
  case True
  then show ?thesis
    by (simp add: steps_of_pass_numeral WaveformServerThread_pass_def)
next
  case q: False
  show ?thesis
  proof (cases "g_triggerArmed s")
    case False
    with q show ?thesis
      by (simp add: steps_of_pass_numeral WaveformServerThread_pass_def)
  next
    case a: True
    show ?thesis
    proof (cases "getFrame_err io = 0")
      case False
      with q a show ?thesis
        by (simp add: steps_of_pass_numeral WaveformServerThread_pass_def Let_def)
    next
      case g: True
      show ?thesis
      proof (cases "flatten P (getFrame_pixels io)")
        case (Inl f)
        with q a g show ?thesis
          by (simp add: steps_of_pass_numeral WaveformServerThread_pass_def Let_def)
      next
        case (Inr ff)
        with q a g show ?thesis
          by (simp add: steps_of_pass_numeral WaveformServerThread_pass_def Let_def)
      qed
    qed
  qed
qed

text \<open>The thread stands between its armed check and its fetch only in a pass whose check read the flag true.\<close>

lemma calls_follow_armed_check_interleave:
  "(pc \<in> {AtLock, AtTrigger, AtGetFrame} \<longrightarrow> seen) \<Longrightarrow>
   calls_follow_armed_check seen (interleave P s pc fp sch)"
proof (induction sch arbitrary: s pc fp seen)
  case Nil
  show ?case by simp
next
  case (Cons a sch)
  show ?case
  proof (cases a)
    case (ControlCall c)
    with Cons show ?thesis
      by simp
  next
    case (StreamerStep io)
    show ?thesis
      using Cons.prems StreamerStep
      by (cases pc) (auto simp add: list_all_iff intro!: Cons.IH split: sum.splits)
  qed
qed

text \<open>
  Claim C7, amended. A pass of the data-plane loop whose armed check reads the flag false
  makes no call into the device: the check emits the one-millisecond sleep and returns to
  the loop test, the flags stay as they are, and the same holds for any run of passes made
  while nothing arms the trigger. Under every interleaving with the acquisition functions
  of the control plane, each trigger and each fetch lies in a pass whose armed check read
  the flag true.
\<close>

theorem armed_check_guards_device_calls:
  "(\<not> g_triggerArmed s \<longrightarrow>
      streamer_step P s AtArmedCheck framePixels io = ([SleepUs 1000], s, AtLoopTest, framePixels) \<and>
      list_all (\<lambda>e. \<not> is_device_call e) (fst (WaveformServerThread_pass P s io)) \<and>
      fst (snd (WaveformServerThread_pass P s io)) = s \<and>
      (\<not> g_waveformThreadQuit s \<longrightarrow> WaveformServerThread_pass P s io = ([SleepUs 1000], s, Continue)) \<and>
      list_all (\<lambda>e. \<not> is_device_call e) (fst (WaveformServerThread_loop P s ios)) \<and>
      snd (WaveformServerThread_loop P s ios) = s) \<and>
   calls_follow_armed_check False (interleave P s AtLoopTest framePixels sch)"
proof -
  have "calls_follow_armed_check False (interleave P s AtLoopTest framePixels sch)"
    by (rule calls_follow_armed_check_interleave) simp
  then show ?thesis
    by (simp add: WaveformServerThread_pass_unarmed WaveformServerThread_loop_unarmed list_all_iff)
qed

theorem armed_check_guards_device_calls_witness:
  "\<not> g_triggerArmed \<lparr>g_triggerArmed = False, g_triggerOneShot = False, g_waveformThreadQuit = False\<rparr> \<and>
   \<not> g_waveformThreadQuit \<lparr>g_triggerArmed = False, g_triggerOneShot = False, g_waveformThreadQuit = False\<rparr> \<and>
   WaveformServerThread_pass 1 \<lparr>g_triggerArmed = False, g_triggerOneShot = False, g_waveformThreadQuit = False\<rparr>
     \<lparr>trigger_err = 0, getFrame_err = 0, getFrame_pixels = replicate 33 7, send_ok = True\<rparr>
   = ([SleepUs 1000], \<lparr>g_triggerArmed = False, g_triggerOneShot = False, g_waveformThreadQuit = False\<rparr>, Continue) \<and>
   calls_follow_armed_check False
     (interleave 1 \<lparr>g_triggerArmed = False, g_triggerOneShot = False, g_waveformThreadQuit = False\<rparr>
        AtLoopTest []
        [StreamerStep \<lparr>trigger_err = 0, getFrame_err = 0, getFrame_pixels = replicate 33 7, send_ok = True\<rparr>,
         StreamerStep \<lparr>trigger_err = 0, getFrame_err = 0, getFrame_pixels = replicate 33 7, send_ok = True\<rparr>,
         ControlCall (CallAcquisitionStart False),
         StreamerStep \<lparr>trigger_err = 0, getFrame_err = 0, getFrame_pixels = replicate 33 7, send_ok = True\<rparr>,
         StreamerStep \<lparr>trigger_err = 0, getFrame_err = 0, getFrame_pixels = replicate 33 7, send_ok = True\<rparr>,
         ControlCall CallAcquisitionStop,
         StreamerStep \<lparr>trigger_err = 0, getFrame_err = 0, getFrame_pixels = replicate 33 7, send_ok = True\<rparr>,
         StreamerStep \<lparr>trigger_err = 0, getFrame_err = 0, getFrame_pixels = replicate 33 7, send_ok = True\<rparr>,
         StreamerStep \<lparr>trigger_err = 0, getFrame_err = 0, getFrame_pixels = replicate 33 7, send_ok = True\<rparr>])"
  using armed_check_guards_device_calls [of
      "\<lparr>g_triggerArmed = False, g_triggerOneShot = False, g_waveformThreadQuit = False\<rparr>" 1 "[]"
      "\<lparr>trigger_err = 0, getFrame_err = 0, getFrame_pixels = replicate 33 7, send_ok = True\<rparr>" "[]"
      "[StreamerStep \<lparr>trigger_err = 0, getFrame_err = 0, getFrame_pixels = replicate 33 7, send_ok = True\<rparr>,
         StreamerStep \<lparr>trigger_err = 0, getFrame_err = 0, getFrame_pixels = replicate 33 7, send_ok = True\<rparr>,
         ControlCall (CallAcquisitionStart False),
         StreamerStep \<lparr>trigger_err = 0, getFrame_err = 0, getFrame_pixels = replicate 33 7, send_ok = True\<rparr>,
         StreamerStep \<lparr>trigger_err = 0, getFrame_err = 0, getFrame_pixels = replicate 33 7, send_ok = True\<rparr>,
         ControlCall CallAcquisitionStop,
         StreamerStep \<lparr>trigger_err = 0, getFrame_err = 0, getFrame_pixels = replicate 33 7, send_ok = True\<rparr>,
         StreamerStep \<lparr>trigger_err = 0, getFrame_err = 0, getFrame_pixels = replicate 33 7, send_ok = True\<rparr>,
         StreamerStep \<lparr>trigger_err = 0, getFrame_err = 0, getFrame_pixels = replicate 33 7, send_ok = True\<rparr>]"]
  by (simp only: simp_thms) simp

text \<open>
  As stated over states, the claim fails. The thread tests \<^verbatim>\<open>g_triggerArmed\<close> outside the
  lock and \<^verbatim>\<open>AcquisitionStop\<close> clears it without the lock: a stop that falls between the
  armed check and the trigger leaves the flag false, and the pass goes on to lock,
  trigger and fetch.
\<close>

theorem unarmed_steps_idle_counterexample:
  "interleave 1 \<lparr>g_triggerArmed = False, g_triggerOneShot = False, g_waveformThreadQuit = False\<rparr>
     AtLoopTest []
     [ControlCall (CallAcquisitionStart False),
      StreamerStep \<lparr>trigger_err = 0, getFrame_err = 0, getFrame_pixels = replicate 33 7, send_ok = True\<rparr>,
      StreamerStep \<lparr>trigger_err = 0, getFrame_err = 0, getFrame_pixels = replicate 33 7, send_ok = True\<rparr>,
      ControlCall CallAcquisitionStop,
      StreamerStep \<lparr>trigger_err = 0, getFrame_err = 0, getFrame_pixels = replicate 33 7, send_ok = True\<rparr>,
      StreamerStep \<lparr>trigger_err = 0, getFrame_err = 0, getFrame_pixels = replicate 33 7, send_ok = True\<rparr>,
      StreamerStep \<lparr>trigger_err = 0, getFrame_err = 0, getFrame_pixels = replicate 33 7, send_ok = True\<rparr>]
   = [Called (CallAcquisitionStart False),
      Stepped AtLoopTest True [],
      Stepped AtArmedCheck True [],
      Called CallAcquisitionStop,
      Stepped AtLock False [MutexLock],
      Stepped AtTrigger False [TriggerAcquisition 0],
      Stepped AtGetFrame False [GetFrame 0]] \<and>
   \<not> unarmed_steps_idle
     (interleave 1 \<lparr>g_triggerArmed = False, g_triggerOneShot = False, g_waveformThreadQuit = False\<rparr>
        AtLoopTest []
        [ControlCall (CallAcquisitionStart False),
         StreamerStep \<lparr>trigger_err = 0, getFrame_err = 0, getFrame_pixels = replicate 33 7, send_ok = True\<rparr>,
         StreamerStep \<lparr>trigger_err = 0, getFrame_err = 0, getFrame_pixels = replicate 33 7, send_ok = True\<rparr>,
         ControlCall CallAcquisitionStop,
         StreamerStep \<lparr>trigger_err = 0, getFrame_err = 0, getFrame_pixels = replicate 33 7, send_ok = True\<rparr>,
         StreamerStep \<lparr>trigger_err = 0, getFrame_err = 0, getFrame_pixels = replicate 33 7, send_ok = True\<rparr>,
         StreamerStep \<lparr>trigger_err = 0, getFrame_err = 0, getFrame_pixels = replicate 33 7, send_ok = True\<rparr>])"
  by (simp add: AcquisitionStart_def AcquisitionStop_def)

subsection \<open>One-shot and repeating acquisition\<close>

text \<open>
  Claim C2. In a pass that finds the trigger armed and whose frame fetch succeeds:
  if the one-shot flag is set, the armed flag is false afterwards, the store that clears it
  comes after the lock and the single successful fetch and directly before the unlock;
  if the one-shot flag is not set, the pass makes no store to the armed flag, which stays
  true over any number of passes, until \<^verbatim>\<open>AcquisitionStop\<close> clears it.
\<close>

theorem one_shot_disarms_under_lock:
  assumes "g_triggerArmed s" and "\<not> g_waveformThreadQuit s" and "getFrame_err io = 0"
  shows "(g_triggerOneShot s \<longrightarrow>
            \<not> g_triggerArmed (fst (snd (WaveformServerThread_pass P s io))) \<and>
            (\<exists>pre post. fst (WaveformServerThread_pass P s io) = pre @ [StoreArmed False, MutexUnlock] @ post \<and>
               MutexLock \<in> set pre \<and> MutexUnlock \<notin> set pre \<and>
               filter is_fetch pre = [GetFrame 0] \<and> filter is_fetch post = [])) \<and>
         (\<not> g_triggerOneShot s \<longrightarrow>
            g_triggerArmed (fst (snd (WaveformServerThread_pass P s io))) \<and>
            (\<forall>b. StoreArmed b \<notin> set (fst (WaveformServerThread_pass P s io))) \<and>
            filter is_fetch (fst (WaveformServerThread_pass P s io)) = [GetFrame 0] \<and>
            g_triggerArmed (snd (WaveformServerThread_loop P s ios)) \<and>
            \<not> g_triggerArmed (AcquisitionStop (snd (WaveformServerThread_loop P s ios))))"
proof (intro conjI impI)
  assume o: "g_triggerOneShot s"
  show "\<not> g_triggerArmed (fst (snd (WaveformServerThread_pass P s io)))"
    using assms o by (simp add: WaveformServerThread_pass_def Let_def split: sum.splits)
  let ?pre = "[MutexLock, TriggerAcquisition (trigger_err io)] @
      (if trigger_err io \<noteq> 0
       then [LogError (''failed to trigger acquisition, code %d'' @ [nl]) [ArgInt (trigger_err io)]]
       else []) @ [GetFrame 0]"
  let ?post = "case flatten P (getFrame_pixels io) of Inl f \<Rightarrow> []
      | Inr frameFlattened \<Rightarrow> [SendLooped frameFlattened (P * sizeof_float)]"
  have "fst (WaveformServerThread_pass P s io) = ?pre @ [StoreArmed False, MutexUnlock] @ ?post"
    using assms o by (simp add: WaveformServerThread_pass_def Let_def split: sum.splits)
  moreover have "MutexLock \<in> set ?pre" "MutexUnlock \<notin> set ?pre" "filter is_fetch ?pre = [GetFrame 0]"
    by simp_all
  moreover have "filter is_fetch ?post = []"
    by (simp split: sum.splits)
  ultimately show "\<exists>pre post. fst (WaveformServerThread_pass P s io) = pre @ [StoreArmed False, MutexUnlock] @ post \<and>
               MutexLock \<in> set pre \<and> MutexUnlock \<notin> set pre \<and>
               filter is_fetch pre = [GetFrame 0] \<and> filter is_fetch post = []"
    by blast
next
  assume r: "\<not> g_triggerOneShot s"
  show "g_triggerArmed (fst (snd (WaveformServerThread_pass P s io)))"
    using assms r by (simp add: WaveformServerThread_pass_repeating)
  show "\<forall>b. StoreArmed b \<notin> set (fst (WaveformServerThread_pass P s io))"
    using assms r by (simp add: WaveformServerThread_pass_def Let_def split: sum.splits)
  show "filter is_fetch (fst (WaveformServerThread_pass P s io)) = [GetFrame 0]"
    using assms r by (simp add: WaveformServerThread_pass_def Let_def split: sum.splits)
  show "g_triggerArmed (snd (WaveformServerThread_loop P s ios))"
    using assms r by (simp add: WaveformServerThread_loop_repeating)
  show "\<not> g_triggerArmed (AcquisitionStop (snd (WaveformServerThread_loop P s ios)))"
    by (simp add: AcquisitionStop_def)
qed

theorem one_shot_disarms_under_lock_witness:
  "g_triggerArmed \<lparr>g_triggerArmed = True, g_triggerOneShot = True, g_waveformThreadQuit = False\<rparr> \<and>
   \<not> g_waveformThreadQuit \<lparr>g_triggerArmed = True, g_triggerOneShot = True, g_waveformThreadQuit = False\<rparr> \<and>
   getFrame_err \<lparr>trigger_err = 0, getFrame_err = 0, getFrame_pixels = replicate 33 5, send_ok = True\<rparr> = 0 \<and>
   g_triggerOneShot \<lparr>g_triggerArmed = True, g_triggerOneShot = True, g_waveformThreadQuit = False\<rparr> \<and>
   \<not> g_triggerArmed (fst (snd (WaveformServerThread_pass 1
        \<lparr>g_triggerArmed = True, g_triggerOneShot = True, g_waveformThreadQuit = False\<rparr>
        \<lparr>trigger_err = 0, getFrame_err = 0, getFrame_pixels = replicate 33 5, send_ok = True\<rparr>))) \<and>
   g_triggerArmed \<lparr>g_triggerArmed = True, g_triggerOneShot = False, g_waveformThreadQuit = False\<rparr> \<and>
   \<not> g_triggerOneShot \<lparr>g_triggerArmed = True, g_triggerOneShot = False, g_waveformThreadQuit = False\<rparr> \<and>
   g_triggerArmed (snd (WaveformServerThread_loop 1
        \<lparr>g_triggerArmed = True, g_triggerOneShot = False, g_waveformThreadQuit = False\<rparr>
        [\<lparr>trigger_err = 0, getFrame_err = 0, getFrame_pixels = replicate 33 5, send_ok = True\<rparr>,
         \<lparr>trigger_err = 0, getFrame_err = 0, getFrame_pixels = replicate 33 6, send_ok = True\<rparr>])) \<and>
   \<not> g_triggerArmed (AcquisitionStop (snd (WaveformServerThread_loop 1
        \<lparr>g_triggerArmed = True, g_triggerOneShot = False, g_waveformThreadQuit = False\<rparr>
        [\<lparr>trigger_err = 0, getFrame_err = 0, getFrame_pixels = replicate 33 5, send_ok = True\<rparr>,
         \<lparr>trigger_err = 0, getFrame_err = 0, getFrame_pixels = replicate 33 6, send_ok = True\<rparr>])))"
  using one_shot_disarms_under_lock [of
      "\<lparr>g_triggerArmed = True, g_triggerOneShot = True, g_waveformThreadQuit = False\<rparr>"
      "\<lparr>trigger_err = 0, getFrame_err = 0, getFrame_pixels = replicate 33 5, send_ok = True\<rparr>" 1 "[]"]
    one_shot_disarms_under_lock [of
      "\<lparr>g_triggerArmed = True, g_triggerOneShot = False, g_waveformThreadQuit = False\<rparr>"
      "\<lparr>trigger_err = 0, getFrame_err = 0, getFrame_pixels = replicate 33 5, send_ok = True\<rparr>" 1
      "[\<lparr>trigger_err = 0, getFrame_err = 0, getFrame_pixels = replicate 33 5, send_ok = True\<rparr>,
        \<lparr>trigger_err = 0, getFrame_err = 0, getFrame_pixels = replicate 33 6, send_ok = True\<rparr>]"]
  by simp

subsection \<open>The streamed frame\<close>

text \<open>
  Claim C3. A pass that fetches a frame makes exactly one socket write, after the lock is
  released: \<open>P\<close> values in \<open>P * 4\<close> bytes and nothing before them, value \<open>i\<close> being sample
  \<open>i + 32\<close> of the raw frame converted to \<^verbatim>\<open>float\<close>.
\<close>

theorem frame_payload_is_offset_samples:
  assumes "g_triggerArmed s" and "\<not> g_waveformThreadQuit s" and "getFrame_err io = 0"
    and "P + 32 \<le> length (getFrame_pixels io)"
  shows "\<exists>pre payload. fst (WaveformServerThread_pass P s io) = pre @ [SendLooped payload (P * 4)] \<and>
           filter is_send pre = [] \<and> MutexUnlock \<in> set pre \<and>
           length payload = P \<and>
           (\<forall>i<P. payload ! i = FFinite False (real (unat (getFrame_pixels io ! (i + 32)))))"
proof -
  let ?payload = "map (\<lambda>i. float_of_uint16 (getFrame_pixels io ! (i + 32))) [0..<P]"
  let ?pre = "[MutexLock, TriggerAcquisition (trigger_err io)] @
      (if trigger_err io \<noteq> 0
       then [LogError (''failed to trigger acquisition, code %d'' @ [nl]) [ArgInt (trigger_err io)]]
       else []) @ [GetFrame 0] @ (if g_triggerOneShot s then [StoreArmed False] else []) @ [MutexUnlock]"
  have "fst (WaveformServerThread_pass P s io) = ?pre @ [SendLooped ?payload (P * 4)]"
    using assms by (simp add: WaveformServerThread_pass_def Let_def flatten_in_range sizeof_float_def)
  moreover have "filter is_send ?pre = []" "MutexUnlock \<in> set ?pre"
    by simp_all
  moreover have "length ?payload = P"
    by simp
  moreover have "\<forall>i<P. ?payload ! i = FFinite False (real (unat (getFrame_pixels io ! (i + 32))))"
    by (simp add: float_of_uint16_def)
  ultimately show ?thesis
    by blast
qed

theorem frame_payload_is_offset_samples_witness:
  "g_triggerArmed \<lparr>g_triggerArmed = True, g_triggerOneShot = False, g_waveformThreadQuit = False\<rparr> \<and>
   \<not> g_waveformThreadQuit \<lparr>g_triggerArmed = True, g_triggerOneShot = False, g_waveformThreadQuit = False\<rparr> \<and>
   getFrame_err \<lparr>trigger_err = 0, getFrame_err = 0, getFrame_pixels = replicate 32 0 @ [7, 9], send_ok = True\<rparr> = 0 \<and>
   2 + 32 \<le> length (getFrame_pixels \<lparr>trigger_err = 0, getFrame_err = 0, getFrame_pixels = replicate 32 0 @ [7, 9], send_ok = True\<rparr>) \<and>
   (\<exists>pre payload.
      fst (WaveformServerThread_pass 2 \<lparr>g_triggerArmed = True, g_triggerOneShot = False, g_waveformThreadQuit = False\<rparr>
             \<lparr>trigger_err = 0, getFrame_err = 0, getFrame_pixels = replicate 32 0 @ [7, 9], send_ok = True\<rparr>)
        = pre @ [SendLooped payload (2 * 4)] \<and>
      filter is_send pre = [] \<and> MutexUnlock \<in> set pre \<and> length payload = 2 \<and>
      payload ! 0 = FFinite False 7 \<and> payload ! 1 = FFinite False 9)"
proof -
  let ?s = "\<lparr>g_triggerArmed = True, g_triggerOneShot = False, g_waveformThreadQuit = False\<rparr>"
  let ?io = "\<lparr>trigger_err = 0, getFrame_err = 0, getFrame_pixels = replicate 32 0 @ [7, 9 :: 16 word], send_ok = True\<rparr>"
  have h: "g_triggerArmed ?s" "\<not> g_waveformThreadQuit ?s" "getFrame_err ?io = 0"
    "2 + 32 \<le> length (getFrame_pixels ?io)"
    by simp_all
  from frame_payload_is_offset_samples [OF h]
  obtain pre payload where
    e: "fst (WaveformServerThread_pass 2 ?s ?io) = pre @ [SendLooped payload (2 * 4)]"
    and p: "filter is_send pre = []" "MutexUnlock \<in> set pre" "length payload = 2"
    and v: "\<forall>i<2. payload ! i = FFinite False (real (unat (getFrame_pixels ?io ! (i + 32))))"
    by blast
  from v have "payload ! 0 = FFinite False (real (unat (getFrame_pixels ?io ! (0 + 32))))"
    and "payload ! 1 = FFinite False (real (unat (getFrame_pixels ?io ! (1 + 32))))"
    by simp_all
  then have "payload ! 0 = FFinite False 7" "payload ! 1 = FFinite False 9"
    by (simp_all add: nth_append)
  with h e p show ?thesis
    by blast
qed

subsection \<open>Writers of the one-shot flag\<close>

text \<open>
  Claim C10. \<^verbatim>\<open>AcquisitionForceTrigger\<close> and \<^verbatim>\<open>AcquisitionStop\<close> change the armed flag and
  nothing else; the one-shot flag is assigned by \<^verbatim>\<open>AcquisitionStart\<close> only (neither the
  data-plane pass nor any other command changes it). Hence, after a one-shot start and
  its frame, a force-trigger arms again and the next fetched frame disarms again.
\<close>

theorem only_start_writes_one_shot:
  "AcquisitionForceTrigger s = s\<lparr>g_triggerArmed := True\<rparr> \<and>
   AcquisitionStop s = s\<lparr>g_triggerArmed := False\<rparr> \<and>
   g_triggerOneShot (AcquisitionForceTrigger s) = g_triggerOneShot s \<and>
   g_triggerOneShot (AcquisitionStop s) = g_triggerOneShot s \<and>
   g_triggerOneShot (AcquisitionStart b s) = b \<and>
   g_triggerOneShot (fst (snd (WaveformServerThread_pass P s io))) = g_triggerOneShot s \<and>
   (g_triggerOneShot (fst (snd (OnCommand base stod setExposure s line subject cmd args))) \<noteq> g_triggerOneShot s
      \<longrightarrow> (\<exists>b'. base line subject cmd args = Some (CallAcquisitionStart b'))) \<and>
   (\<not> g_waveformThreadQuit s \<and> getFrame_err io' = 0 \<longrightarrow>
      g_triggerArmed (AcquisitionForceTrigger (fst (snd (WaveformServerThread_pass P (AcquisitionStart True s) io)))) \<and>
      \<not> g_triggerArmed (fst (snd (WaveformServerThread_pass P
           (AcquisitionForceTrigger (fst (snd (WaveformServerThread_pass P (AcquisitionStart True s) io)))) io'))))"
proof -
  let ?s1 = "fst (snd (WaveformServerThread_pass P (AcquisitionStart True s) io))"
  have a: "g_triggerOneShot ?s1" "g_waveformThreadQuit ?s1 = g_waveformThreadQuit s"
    by (simp_all add: WaveformServerThread_pass_oneShot_unchanged WaveformServerThread_pass_quit_unchanged AcquisitionStart_def)
  have b: "\<not> g_waveformThreadQuit s \<and> getFrame_err io' = 0 \<longrightarrow>
      \<not> g_triggerArmed (fst (snd (WaveformServerThread_pass P (AcquisitionForceTrigger ?s1) io')))"
  proof
    assume q: "\<not> g_waveformThreadQuit s \<and> getFrame_err io' = 0"
    show "\<not> g_triggerArmed (fst (snd (WaveformServerThread_pass P (AcquisitionForceTrigger ?s1) io')))"
      by (rule WaveformServerThread_pass_one_shot_disarms) (use a q in \<open>simp_all add: AcquisitionForceTrigger_def\<close>)
  qed
  have c: "g_triggerOneShot (fst (snd (OnCommand base stod setExposure s line subject cmd args))) \<noteq> g_triggerOneShot s
      \<longrightarrow> (\<exists>b'. base line subject cmd args = Some (CallAcquisitionStart b'))"
    using run_base_call_oneShot by (auto simp add: OnCommand_flags split: option.splits)
  show ?thesis
    using b c
    by (simp add: AcquisitionForceTrigger_def AcquisitionStop_def AcquisitionStart_def
        WaveformServerThread_pass_oneShot_unchanged)
qed

theorem only_start_writes_one_shot_witness:
  "\<not> g_waveformThreadQuit \<lparr>g_triggerArmed = False, g_triggerOneShot = False, g_waveformThreadQuit = False\<rparr> \<and>
   getFrame_err \<lparr>trigger_err = 0, getFrame_err = 0, getFrame_pixels = replicate 33 5, send_ok = True\<rparr> = 0 \<and>
   \<not> g_triggerArmed (fst (snd (WaveformServerThread_pass 1
       (AcquisitionForceTrigger (fst (snd (WaveformServerThread_pass 1
          (AcquisitionStart True \<lparr>g_triggerArmed = False, g_triggerOneShot = False, g_waveformThreadQuit = False\<rparr>)
          \<lparr>trigger_err = 0, getFrame_err = 0, getFrame_pixels = replicate 33 5, send_ok = True\<rparr>))))
       \<lparr>trigger_err = 0, getFrame_err = 0, getFrame_pixels = replicate 33 5, send_ok = True\<rparr>))) \<and>
   g_triggerOneShot (fst (snd (OnCommand (\<lambda>line subject cmd args. Some (CallAcquisitionStart True))
       (\<lambda>a. Inr 0) (\<lambda>x. 0)
       \<lparr>g_triggerArmed = False, g_triggerOneShot = False, g_waveformThreadQuit = False\<rparr>
       ''SINGLE'' [] ''SINGLE'' []))) \<noteq>
     g_triggerOneShot \<lparr>g_triggerArmed = False, g_triggerOneShot = False, g_waveformThreadQuit = False\<rparr> \<and>
   (\<exists>b'. (\<lambda>line subject cmd args. Some (CallAcquisitionStart True)) ''SINGLE'' [] ''SINGLE'' [] =
      Some (CallAcquisitionStart b'))"
  using only_start_writes_one_shot [of
      "\<lparr>g_triggerArmed = False, g_triggerOneShot = False, g_waveformThreadQuit = False\<rparr>"
      True 1 "\<lparr>trigger_err = 0, getFrame_err = 0, getFrame_pixels = replicate 33 5, send_ok = True\<rparr>"
      "\<lambda>line subject cmd args. Some (CallAcquisitionStart True)" "\<lambda>a. Inr 0" "\<lambda>x. 0"
      "''SINGLE''" "[]" "''SINGLE''" "[]"
      "\<lparr>trigger_err = 0, getFrame_err = 0, getFrame_pixels = replicate 33 5, send_ok = True\<rparr>"]
  by (simp add: OnCommand_def AcquisitionStart_def)

section \<open>Replies of the per-pixel queries\<close>

subsection \<open>Formatting\<close>

declare dec_digits.simps [simp del]

lemma digit_char_is_digit: "d < 10 \<Longrightarrow> is_digit (digit_char d)"
  unfolding is_digit_def digit_char_def by (rule nth_mem) simp

lemma dec_digits_all_digits: "list_all is_digit (dec_digits n)"
proof (induction n rule: dec_digits.induct)
  case (1 n)
  show ?case
  proof (cases "n < 10")
    case True
    then show ?thesis
      by (subst dec_digits.simps) (simp add: digit_char_is_digit)
  next
    case False
    with 1 show ?thesis
      by (subst dec_digits.simps) (simp add: digit_char_is_digit)
  qed
qed

lemma dec_digits_nonempty: "dec_digits n \<noteq> []"
  by (subst dec_digits.simps) simp

lemma dec_digits_length: "n < 10 ^ k \<Longrightarrow> 0 < k \<Longrightarrow> length (dec_digits n) \<le> k"
proof (induction n arbitrary: k rule: dec_digits.induct)
  case (1 n)
  show ?case
  proof (cases "n < 10")
    case True
    with 1 show ?thesis
      by (subst dec_digits.simps) simp
  next
    case False
    with "1.prems" obtain j where k: "k = Suc j"
      by (cases k) auto
    with False "1.prems" have "0 < j"
      by (cases j) auto
    moreover from k "1.prems" have "n div 10 < 10 ^ j"
      by (simp add: less_mult_imp_div_less mult.commute)
    ultimately have "length (dec_digits (n div 10)) \<le> j"
      using "1.IH" False by simp
    with False k show ?thesis
      by (subst dec_digits.simps) simp
  qed
qed

lemma frac_digits_3:
  "\<exists>a b c. a < 10 \<and> b < 10 \<and> c < 10 \<and> frac_digits 3 m = [digit_char a, digit_char b, digit_char c]"
proof -
  have "frac_digits 3 m =
      [digit_char (m div 10 div 10 mod 10), digit_char (m div 10 mod 10), digit_char (m mod 10)]"
    by (simp only: numeral_3_eq_3 frac_digits.simps append.simps)
  moreover have "m div 10 div 10 mod 10 < 10" "m div 10 mod 10 < 10" "m mod 10 < 10"
    by simp_all
  ultimately show ?thesis
    by blast
qed

declare printf_f.simps [simp del]

lemma round_half_even_le: "0 \<le> x \<Longrightarrow> real (round_half_even x) \<le> x + 1"
  unfolding round_half_even_def Let_def by (auto simp add: ) linarith+


lemma printf_f_3_finite:
  "\<exists>a b c. a < 10 \<and> b < 10 \<and> c < 10 \<and>
     printf_f 3 (FFinite neg m) =
       (if neg then ''-'' else []) @ dec_digits (round_half_even (m * 1000) div 1000) @
       [CHR ''.'', digit_char a, digit_char b, digit_char c]"
proof -
  obtain a b c where d: "a < 10" "b < 10" "c < 10"
    and f: "frac_digits 3 (round_half_even (m * 1000) mod 1000) = [digit_char a, digit_char b, digit_char c]"
    using frac_digits_3 by blast
  have "printf_f 3 (FFinite neg m) =
       (if neg then ''-'' else []) @ dec_digits (round_half_even (m * 1000) div 1000) @
       [CHR ''.'', digit_char a, digit_char b, digit_char c]"
    by (simp add: printf_f.simps Let_def f)
  with d show ?thesis
    by blast
qed

lemma not_digit_chars: "\<not> is_digit CHR ''.''" "\<not> is_digit CHR ''-''" "\<not> is_digit CHR '',''"
  by (simp_all add: is_digit_def)

lemma decimal3_core:
  assumes "ds \<noteq> []" and "\<forall>x\<in>set ds. is_digit x" and "is_digit a" "is_digit b" "is_digit c"
  shows "is_decimal3_token (ds @ [CHR ''.'', a, b, c, CHR '','']) \<and>
         is_decimal3_token (CHR ''-'' # ds @ [CHR ''.'', a, b, c, CHR '',''])"
proof -
  let ?r = "[CHR ''.'', a, b, c, CHR '','']"
  have t: "takeWhile is_digit (ds @ ?r) = ds"
    using assms(2) by (simp add: takeWhile_append2 not_digit_chars)
  have r: "dropWhile is_digit (ds @ ?r) = ?r"
    using assms(2) by (simp add: dropWhile_append2 not_digit_chars)
  have h: "hd (ds @ ?r) \<noteq> CHR ''-''"
    using assms(1,2) not_digit_chars(2) by (cases ds) auto
  have "is_decimal3_token (ds @ ?r)"
    unfolding is_decimal3_token_def Let_def using h
    by (simp only: if_False simp_thms t r) (use assms in simp)
  moreover have "is_decimal3_token (CHR ''-'' # ds @ ?r)"
    unfolding is_decimal3_token_def Let_def
    by (simp only: list.sel list.distinct simp_thms if_True not_Cons_self2 t r) (use assms in simp)
  ultimately show ?thesis ..
qed

lemma decimal3_shape:
  assumes "a < 10" "b < 10" "c < 10"
  shows "is_decimal3_token ((if neg then ''-'' else []) @ dec_digits n @ ''.'' @
           [digit_char a, digit_char b, digit_char c] @ '','')"
  using decimal3_core [of "dec_digits n" "digit_char a" "digit_char b" "digit_char c"]
    dec_digits_nonempty [of n] dec_digits_all_digits [of n] assms
  by (simp add: list_all_iff digit_char_is_digit)

lemma printf_f_3_token:
  "is_decimal3_token (printf_f 3 (FFinite neg m) @ '','')"
proof -
  obtain a b c where d: "a < 10" "b < 10" "c < 10"
    and p: "printf_f 3 (FFinite neg m) =
       (if neg then ''-'' else []) @ dec_digits (round_half_even (m * 1000) div 1000) @
       [CHR ''.'', digit_char a, digit_char b, digit_char c]"
    using printf_f_3_finite by blast
  show ?thesis
    using decimal3_shape [OF d, of neg "round_half_even (m * 1000) div 1000"]
    by (simp add: p)
qed

lemma printf_f_3_length:
  assumes "0 \<le> m" "m \<le> FLT_MAX"
  shows "length (printf_f 3 (FFinite neg m)) \<le> 44"
proof -
  let ?M = "round_half_even (m * 1000)"
  obtain a b c where
    p: "printf_f 3 (FFinite neg m) =
       (if neg then ''-'' else []) @ dec_digits (?M div 1000) @
       [CHR ''.'', digit_char a, digit_char b, digit_char c]"
    using printf_f_3_finite by blast
  have "real ?M \<le> m * 1000 + 1"
    using assms by (intro round_half_even_le) simp
  also have "\<dots> \<le> FLT_MAX * 1000 + 1"
    using assms by simp
  also have "\<dots> < 10 ^ 42"
    by (simp add: FLT_MAX_def)
  finally have "real ?M < real (10 ^ 42)"
    by simp
  then have "?M < 10 ^ 42"
    by (simp only: of_nat_less_iff)
  then have "?M div 1000 < 10 ^ 39"
    by (simp add: less_mult_imp_div_less)
  then have "length (dec_digits (?M div 1000)) \<le> 39"
    by (rule dec_digits_length) simp
  then show ?thesis
    by (simp add: p)
qed

lemma snprintf_3f_comma_finite:
  "is_finite_float x \<Longrightarrow> snprintf_3f_comma x = printf_f 3 x @ '',''"
proof (cases x)
  case (FFinite neg m)
  assume "is_finite_float x"
  with FFinite have "length (printf_f 3 x) \<le> 44"
    using printf_f_3_length [of m neg] by simp
  then show ?thesis
    by (simp add: snprintf_3f_comma_def)
qed simp_all

lemma format_loop_in_range:
  "\<forall>i\<in>set idx. i < length vec \<Longrightarrow>
   format_loop vec idx reply = Inr (reply @ concat (map (\<lambda>i. snprintf_3f_comma (vec ! i)) idx))"
  by (induction idx arbitrary: reply) simp_all

lemma format_loop_out_of_range:
  "\<forall>i\<in>set idx. i < length vec \<Longrightarrow> \<not> j < length vec \<Longrightarrow>
   format_loop vec (idx @ j # rest) reply = Inl IndexOutOfBounds"
  by (induction idx arbitrary: reply) simp_all

lemma format_loop_short_vector:
  assumes "length vec < P"
  shows "format_loop vec [0..<P] reply = Inl IndexOutOfBounds"
proof -
  have "[0..<P] = [0..<length vec] @ length vec # [Suc (length vec)..<P]"
  proof -
    have "[0..<P] = [0..<length vec + (P - length vec)]"
      using assms by simp
    also have "\<dots> = [0..<length vec] @ [length vec..<length vec + (P - length vec)]"
      by (simp only: upt_add_eq_append [OF le0])
    also have "[length vec..<length vec + (P - length vec)] = length vec # [Suc (length vec)..<P]"
      using assms by (simp add: upt_conv_Cons)
    finally show ?thesis .
  qed
  then show ?thesis
    by (simp add: format_loop_out_of_range)
qed

subsection \<open>The query handler\<close>

lemma frac_digits_numeral:
  "frac_digits (numeral k) m = frac_digits (pred_numeral k) (m div 10) @ [digit_char (m mod 10)]"
  by (simp only: numeral_eq_Suc [of k] frac_digits.simps)

lemmas printf_eval = printf_f.simps round_half_even_def dec_digits.simps frac_digits_numeral digit_char_def

lemma OnQuery_per_pixel:
  assumes "\<not> base line subject cmd" and "cmd \<in> {''WAVELENGTHS'', ''FLATCAL'', ''IRRCAL''}"
  shows "OnQuery base P cal line subject cmd =
     (case format_loop (queried_vector cmd cal) [0..<P] [] of
        Inl f \<Rightarrow> ([], Inl f)
      | Inr reply \<Rightarrow> ([SendReply reply], Inr False))"
  using assms unfolding OnQuery_def queried_vector_def by (elim insertE emptyE) simp_all

lemma OnQuery_short_vector:
  assumes "\<not> base line subject cmd" and "cmd \<in> {''WAVELENGTHS'', ''FLATCAL'', ''IRRCAL''}"
    and "length (queried_vector cmd cal) < P"
  shows "OnQuery base P cal line subject cmd = ([], Inl IndexOutOfBounds)"
  using assms by (simp add: OnQuery_per_pixel format_loop_short_vector)

lemma to_string_float_zero: "to_string_float (FFinite False 0) = ''0.000000''"
  by (simp add: to_string_float_def printf_eval)

lemma list_of_length_4: "length xs = 4 \<Longrightarrow> xs = [xs ! 0, xs ! 1, xs ! 2, xs ! 3]"
  by (auto simp add: list_eq_iff_nth_eq less_Suc_eq numeral_eq_Suc nth_Cons split: nat.splits)

text \<open>
  Claim C5, amended. For every pixel count \<open>P\<close> and each of the queries \<^verbatim>\<open>WAVELENGTHS?\<close>,
  \<^verbatim>\<open>FLATCAL?\<close> and \<^verbatim>\<open>IRRCAL?\<close> whose vector holds at least \<open>P\<close> entries, the first \<open>P\<close> of them
  finite: the reply is the concatenation of exactly \<open>P\<close> tokens, token \<open>i\<close> being entry \<open>i\<close>
  of the vector printed with three decimals and followed by a comma.
\<close>

theorem per_pixel_queries_reply_tokens:
  assumes "\<not> base line subject cmd"
    and "cmd \<in> {''WAVELENGTHS'', ''FLATCAL'', ''IRRCAL''}"
    and "P \<le> length (queried_vector cmd cal)"
    and "\<forall>x\<in>set (take P (queried_vector cmd cal)). is_finite_float x"
  shows "\<exists>tokens. OnQuery base P cal line subject cmd = ([SendReply (concat tokens)], Inr False) \<and>
           length tokens = P \<and>
           (\<forall>i<P. tokens ! i = printf_f 3 (queried_vector cmd cal ! i) @ '','' \<and>
                  is_decimal3_token (tokens ! i))"
proof -
  let ?v = "queried_vector cmd cal"
  let ?tokens = "map (\<lambda>i. snprintf_3f_comma (?v ! i)) [0..<P]"
  have "format_loop ?v [0..<P] [] = Inr (concat ?tokens)"
    using assms(3) by (subst format_loop_in_range) auto
  then have q: "OnQuery base P cal line subject cmd = ([SendReply (concat ?tokens)], Inr False)"
    using assms(1,2) by (simp add: OnQuery_per_pixel)
  have "\<forall>i<P. ?tokens ! i = printf_f 3 (?v ! i) @ '','' \<and> is_decimal3_token (?tokens ! i)"
  proof (intro allI impI)
    fix i
    assume i: "i < P"
    with assms(3) have "take P ?v ! i \<in> set (take P ?v)"
      by (intro nth_mem) simp
    with i have "?v ! i \<in> set (take P ?v)"
      by simp
    with assms(4) have f: "is_finite_float (?v ! i)"
      by blast
    then obtain neg m where x: "?v ! i = FFinite neg m"
      by (cases "?v ! i") simp_all
    from f have "snprintf_3f_comma (?v ! i) = printf_f 3 (?v ! i) @ '',''"
      by (rule snprintf_3f_comma_finite)
    moreover have "is_decimal3_token (printf_f 3 (?v ! i) @ '','')"
      unfolding x by (rule printf_f_3_token)
    ultimately show "?tokens ! i = printf_f 3 (?v ! i) @ '','' \<and> is_decimal3_token (?tokens ! i)"
      using i by simp
  qed
  moreover have "length ?tokens = P"
    by simp
  ultimately show ?thesis
    using q by blast
qed

theorem per_pixel_queries_reply_tokens_witness:
  "\<not> (\<lambda>line subject cmd. False) ''WAVELENGTHS?'' [] ''WAVELENGTHS'' \<and>
   ''WAVELENGTHS'' \<in> {''WAVELENGTHS'', ''FLATCAL'', ''IRRCAL''} \<and>
   OnQuery (\<lambda>line subject cmd. False) 4
     \<lparr>g_model = ''LR1'', g_serial = ''1234'',
      g_wavelengths = [FFinite False 500, FFinite False 500.5, FFinite False 501, FFinite False 501.5],
      g_sensorResponse = [], g_absCal = FFinite False 0, g_absResponse = []\<rparr>
     ''WAVELENGTHS?'' [] ''WAVELENGTHS''
   = ([SendReply ''500.000,500.500,501.000,501.500,''], Inr False)"
proof -
  let ?cal = "\<lparr>g_model = ''LR1'', g_serial = ''1234'',
      g_wavelengths = [FFinite False 500, FFinite False 500.5, FFinite False 501, FFinite False 501.5],
      g_sensorResponse = [], g_absCal = FFinite False 0, g_absResponse = []\<rparr>"
  let ?base = "\<lambda>(line :: string) (subject :: string) (cmd :: string). False"
  have h: "\<not> ?base ''WAVELENGTHS?'' [] ''WAVELENGTHS''"
    "''WAVELENGTHS'' \<in> {''WAVELENGTHS'', ''FLATCAL'', ''IRRCAL''}"
    "4 \<le> length (queried_vector ''WAVELENGTHS'' ?cal)"
    "\<forall>x\<in>set (take 4 (queried_vector ''WAVELENGTHS'' ?cal)). is_finite_float x"
    by (simp_all add: queried_vector_def FLT_MAX_def)
  from per_pixel_queries_reply_tokens [OF h]
  obtain tokens where q: "OnQuery ?base 4 ?cal ''WAVELENGTHS?'' [] ''WAVELENGTHS'' = ([SendReply (concat tokens)], Inr False)"
    and l: "length tokens = 4"
    and t: "\<forall>i<4. tokens ! i = printf_f 3 (queried_vector ''WAVELENGTHS'' ?cal ! i) @ '',''"
    by blast
  from t have "tokens ! 0 = ''500.000,''" "tokens ! 1 = ''500.500,''" "tokens ! 2 = ''501.000,''"
    "tokens ! 3 = ''501.500,''"
    by (simp_all add: queried_vector_def printf_eval)
  then have "concat [tokens ! 0, tokens ! 1, tokens ! 2, tokens ! 3] = ''500.000,500.500,501.000,501.500,''"
    by simp
  with arg_cong [OF list_of_length_4 [OF l], of concat]
  have "concat tokens = ''500.000,500.500,501.000,501.500,''"
    by (rule trans)
  with q h show ?thesis
    by simp
qed

text \<open>
  As stated for every pixel count, the claim fails where the vector is shorter than the
  pixel count: with one pixel and no irradiance data \<^verbatim>\<open>IRRCAL?\<close> reads past the end of the
  empty vector and sends no token. It also fails for a value that is not finite, which
  is printed without decimals.
\<close>

theorem per_pixel_queries_reply_tokens_counterexample:
  "OnQuery (\<lambda>line subject cmd. False) 1
     \<lparr>g_model = ''LR1'', g_serial = ''1234'', g_wavelengths = [FFinite False 500],
      g_sensorResponse = [FInf False], g_absCal = FFinite False 0, g_absResponse = []\<rparr>
     ''IRRCAL?'' [] ''IRRCAL''
   = ([], Inl IndexOutOfBounds) \<and>
   OnQuery (\<lambda>line subject cmd. False) 1
     \<lparr>g_model = ''LR1'', g_serial = ''1234'', g_wavelengths = [FFinite False 500],
      g_sensorResponse = [FInf False], g_absCal = FFinite False 0, g_absResponse = []\<rparr>
     ''FLATCAL?'' [] ''FLATCAL''
   = ([SendReply ''inf,''], Inr False) \<and>
   \<not> is_decimal3_token ''inf,''"
proof -
  let ?cal = "\<lparr>g_model = ''LR1'', g_serial = ''1234'', g_wavelengths = [FFinite False 500],
      g_sensorResponse = [FInf False], g_absCal = FFinite False 0, g_absResponse = []\<rparr>"
  have "OnQuery (\<lambda>line subject cmd. False) 1 ?cal ''IRRCAL?'' [] ''IRRCAL'' = ([], Inl IndexOutOfBounds)"
    by (rule OnQuery_short_vector) (simp_all add: queried_vector_def)
  moreover have "OnQuery (\<lambda>line subject cmd. False) 1 ?cal ''FLATCAL?'' [] ''FLATCAL''
      = ([SendReply ''inf,''], Inr False)"
    by (simp add: OnQuery_def snprintf_3f_comma_def printf_f.simps)
  moreover have "\<not> is_decimal3_token ''inf,''"
    by (simp add: is_decimal3_token_def is_digit_def)
  ultimately show ?thesis
    by (intro conjI)
qed

text \<open>
  Claim C4. With the irradiance vector empty, \<^verbatim>\<open>IRRCOEFF?\<close> replies with the coefficient,
  but \<^verbatim>\<open>IRRCAL?\<close> indexes the empty vector for every pixel: the first read is already out
  of bounds and no reply is produced.
\<close>

theorem irrcal_without_data_out_of_bounds:
  "OnQuery (\<lambda>line subject cmd. False) g_numPixels (cal\<lparr>g_absResponse := []\<rparr>) ''IRRCAL?'' [] ''IRRCAL''
     = ([], Inl IndexOutOfBounds) \<and>
   OnQuery (\<lambda>line subject cmd. False) g_numPixels (cal\<lparr>g_absResponse := []\<rparr>) ''IRRCOEFF?'' [] ''IRRCOEFF''
     = ([SendReply (to_string_float (g_absCal cal))], Inr False)"
proof -
  have "OnQuery (\<lambda>line subject cmd. False) g_numPixels (cal\<lparr>g_absResponse := []\<rparr>) ''IRRCAL?'' [] ''IRRCAL''
     = ([], Inl IndexOutOfBounds)"
    by (rule OnQuery_short_vector) (simp_all add: queried_vector_def g_numPixels_def)
  moreover have "OnQuery (\<lambda>line subject cmd. False) g_numPixels (cal\<lparr>g_absResponse := []\<rparr>) ''IRRCOEFF?'' [] ''IRRCOEFF''
     = ([SendReply (to_string_float (g_absCal cal))], Inr False)"
    by (simp add: OnQuery_def)
  ultimately show ?thesis ..
qed

section \<open>Calibration loading\<close>

subsection \<open>Auxiliary facts\<close>

lemma then_do_Inr_iff: "then_do m k = Inr y \<longleftrightarrow> (\<exists>x. m = Inr x \<and> k x = Inr y)"
  by (cases m) (simp_all add: then_do_def)

lemma then_do_Inl [simp]: "then_do (Inl f) k = Inl f"
  by (simp add: then_do_def)

lemma then_do_Inr [simp]: "then_do (Inr x) k = k x"
  by (simp add: then_do_def)

lemma at_index_Inr_iff: "at_index xs i = Inr y \<longleftrightarrow> i < length xs \<and> y = xs ! i"
  by (auto simp add: at_index_def)

lemma at_index_fault: "at_index xs i = Inl f \<Longrightarrow> f = IndexOutOfBounds"
  by (simp add: at_index_def split: if_splits)

lemma read_table_in_range:
  "\<forall>i\<in>set idx. i + off < length lines \<Longrightarrow>
   read_table atof lines off idx vec = Inr (vec @ map (\<lambda>i. atof (lines ! (i + off))) idx)"
  by (induction idx arbitrary: vec) simp_all

lemma read_table_Inr_range:
  "read_table atof lines off idx vec = Inr r \<Longrightarrow> \<forall>i\<in>set idx. i + off < length lines"
  by (induction idx arbitrary: vec) (auto split: if_splits)

lemma read_table_Inr:
  assumes "read_table atof lines off idx vec = Inr r"
  shows "(\<forall>i\<in>set idx. i + off < length lines) \<and> r = vec @ map (\<lambda>i. atof (lines ! (i + off))) idx"
  using assms read_table_Inr_range [OF assms] read_table_in_range [of idx off lines atof vec]
  by simp

lemma read_table_fault: "read_table atof lines off idx vec = Inl f \<Longrightarrow> f = IndexOutOfBounds"
  by (induction idx arbitrary: vec) (auto split: if_splits)

lemma read_table_upt:
  "off + P \<le> length lines \<Longrightarrow>
   read_table atof lines off [0..<P] vec = Inr (vec @ table_values atof lines off P)"
  unfolding table_values_def by (subst read_table_in_range) auto

lemma read_table_upt_Inr:
  assumes "read_table atof lines off [0..<P] vec = Inr r"
  shows "(0 < P \<longrightarrow> off + P \<le> length lines) \<and> r = vec @ table_values atof lines off P"
proof -
  from read_table_Inr [OF assms]
  have a: "\<forall>i\<in>set [0..<P]. i + off < length lines" and r: "r = vec @ map (\<lambda>i. atof (lines ! (i + off))) [0..<P]"
    by simp_all
  have "0 < P \<longrightarrow> off + P \<le> length lines"
  proof
    assume "0 < P"
    then have "P - 1 \<in> set [0..<P]"
      by simp
    with a have "P - 1 + off < length lines"
      by blast
    with \<open>0 < P\<close> show "off + P \<le> length lines"
      by simp
  qed
  with r show ?thesis
    by (simp add: table_values_def)
qed

lemma length_table_values [simp]: "length (table_values atof lines off P) = P"
  by (simp add: table_values_def)

lemma ReadCalData_faults:
  "ReadCalData atof P err buf cal = Inl f \<Longrightarrow> f = (if err \<noteq> 0 then ProcessExit 1 else IndexOutOfBounds)"
  unfolding ReadCalData_def Let_def then_do_def
  by (auto split: if_splits sum.splits dest: at_index_fault read_table_fault)


lemma ReadCalData_Inr:
  assumes "ReadCalData atof P err buf cal = Inr cal'"
  shows "err = 0 \<and> 0 < P \<and> 13 + 2 * P \<le> length (cal_lines buf) \<and>
         2 < length (explode (cal_lines buf ! 0) CHR '' '') \<and>
         2365 < length (g_sensorResponse cal) + P \<and>
         cal' = cal\<lparr>g_model := Trim (explode (cal_lines buf ! 0) CHR '' '' ! 0),
                     g_serial := Trim (explode (cal_lines buf ! 0) CHR '' '' ! 2),
                     g_wavelengths := g_wavelengths cal @ table_values atof (cal_lines buf) 12 P,
                     g_sensorResponse := g_sensorResponse cal @ table_values atof (cal_lines buf) (13 + P) P\<rparr>"
proof -
  let ?lines = "cal_lines buf"
  let ?ff = "explode (?lines ! 0) CHR '' ''"
  from assms have e: "err = 0"
    by (auto simp add: ReadCalData_def split: if_splits)
  from assms e obtain wl sr where
    f: "2 < length ?ff"
    and w: "read_table atof ?lines 12 [0..<P] (g_wavelengths cal) = Inr wl"
    and p: "P \<noteq> 0"
    and s: "read_table atof ?lines (13 + P) [0..<P] (g_sensorResponse cal) = Inr sr"
    and m: "2365 < length sr"
    and c: "cal' = cal\<lparr>g_model := Trim (?ff ! 0), g_serial := Trim (?ff ! 2),
                g_wavelengths := wl, g_sensorResponse := sr\<rparr>"
    unfolding ReadCalData_def Let_def cal_lines_def [symmetric]
    by (auto simp add: then_do_Inr_iff at_index_Inr_iff split: if_splits)
  from read_table_upt_Inr [OF w] have wl: "wl = g_wavelengths cal @ table_values atof ?lines 12 P"
    by simp
  from read_table_upt_Inr [OF s] p
  have sr: "sr = g_sensorResponse cal @ table_values atof ?lines (13 + P) P"
    and n: "13 + P + P \<le> length ?lines"
    by simp_all
  from e f p n m c show ?thesis
    by (simp add: wl sr)
qed

lemma ReadCalData_success:
  assumes "err = 0" and "0 < P" and "13 + 2 * P \<le> length (cal_lines buf)"
    and "2 < length (explode (cal_lines buf ! 0) CHR '' '')"
    and "2365 < length (g_sensorResponse cal) + P"
  shows "ReadCalData atof P err buf cal =
         Inr (cal\<lparr>g_model := Trim (explode (cal_lines buf ! 0) CHR '' '' ! 0),
                     g_serial := Trim (explode (cal_lines buf ! 0) CHR '' '' ! 2),
                     g_wavelengths := g_wavelengths cal @ table_values atof (cal_lines buf) 12 P,
                     g_sensorResponse := g_sensorResponse cal @ table_values atof (cal_lines buf) (13 + P) P\<rparr>)"
proof -
  have w: "read_table atof (cal_lines buf) 12 [0..<P] (g_wavelengths cal)
      = Inr (g_wavelengths cal @ table_values atof (cal_lines buf) 12 P)"
    using assms(3) by (intro read_table_upt) simp
  have s: "read_table atof (cal_lines buf) (13 + P) [0..<P] (g_sensorResponse cal)
      = Inr (g_sensorResponse cal @ table_values atof (cal_lines buf) (13 + P) P)"
    using assms(3) by (intro read_table_upt) simp
  have n: "cal_lines buf \<noteq> []" "explode (cal_lines buf ! 0) CHR '' '' \<noteq> []"
    "table_values atof (cal_lines buf) 12 P \<noteq> []"
    "table_values atof (cal_lines buf) (13 + P) P \<noteq> []"
  proof -
    from assms(3) show "cal_lines buf \<noteq> []"
      by auto
    from assms(4) show "explode (cal_lines buf ! 0) CHR '' '' \<noteq> []"
      by auto
    from assms(2) show "table_values atof (cal_lines buf) 12 P \<noteq> []"
      and "table_values atof (cal_lines buf) (13 + P) P \<noteq> []"
      by (auto simp add: table_values_def)
  qed
  have k: "P - Suc 0 < m + P" for m
    using assms(2) by arith
  show ?thesis
    unfolding ReadCalData_def Let_def cal_lines_def [symmetric]
    using assms n by (simp add: w s at_index_def k)
qed

lemma ReadCalData_too_few_lines:
  assumes "err = 0" and "length (cal_lines buf) < 13 + 2 * P"
  shows "ReadCalData atof P err buf cal = Inl IndexOutOfBounds"
proof (cases "ReadCalData atof P err buf cal")
  case (Inl f)
  with assms(1) show ?thesis
    using ReadCalData_faults [of atof P err buf cal f] by simp
next
  case (Inr cal')
  from ReadCalData_Inr [OF Inr] assms(2) show ?thesis
    by simp
qed

lemma explode_loop_line:
  "separator \<notin> set l \<Longrightarrow>
   explode_loop (l @ separator # rest) separator tmp ret =
   explode_loop rest separator [] (if tmp @ l \<noteq> [] then ret @ [tmp @ l] else ret)"
  by (induction l arbitrary: tmp) auto

lemma explode_loop_lines:
  "\<forall>l\<in>set ls. l \<noteq> [] \<and> separator \<notin> set l \<Longrightarrow>
   explode_loop (concat (map (\<lambda>l. l @ [separator]) ls)) separator [] ret = ret @ ls"
proof (induction ls arbitrary: ret)
  case Nil
  then show ?case by simp
next
  case (Cons l ls)
  then show ?case
    using explode_loop_line [of separator l "concat (map (\<lambda>l. l @ [separator]) ls)" "[]" ret]
    by simp
qed

lemma explode_lines:
  "\<forall>l\<in>set ls. l \<noteq> [] \<and> separator \<notin> set l \<Longrightarrow>
   explode (concat (map (\<lambda>l. l @ [separator]) ls)) separator = ls"
  by (simp add: explode_def explode_loop_lines)

lemma length_example_lines: "length example_lines = 7319"
  by (simp add: example_lines_def g_numPixels_def)

lemma length_example_text: "length example_text = 36567"
  by (simp add: example_text_def example_lines_def g_numPixels_def length_concat sum_list_replicate)

lemma example_text_no_nul: "\<forall>c\<in>set example_text. c \<noteq> CHR 0x00"
  by (auto simp add: example_text_def example_lines_def)

lemma cal_lines_example: "cal_lines example_blob = example_lines"
proof -
  have "take ncal example_blob = example_blob"
    by (simp add: example_blob_def length_example_text ncal_def)
  moreover have "takeWhile (\<lambda>c. c \<noteq> CHR 0x00) example_blob = example_text"
    unfolding example_blob_def using example_text_no_nul
    by (simp add: takeWhile_append2 length_example_text ncal_def)
  moreover have "explode example_text nl = example_lines"
    unfolding example_text_def
    by (rule explode_lines) (auto simp add: example_lines_def)
  ultimately show ?thesis
    by (simp add: cal_lines_def)
qed


lemma atof_plain_examples:
  "atof_plain ''500.5'' = FFinite False 500.5" "atof_plain ''1.0'' = FFinite False 1"
  by (simp_all add: atof_plain_def isspace_def is_digit_def digits_value_def digit_value_def)

lemma example_lines_nth:
  "i < g_numPixels \<Longrightarrow> example_lines ! (i + 12) = ''500.5''"
  "i < g_numPixels \<Longrightarrow> example_lines ! (i + (13 + g_numPixels)) = ''1.0''"
  by (simp_all add: example_lines_def nth_append nth_Cons' g_numPixels_def)

lemma table_values_example:
  "table_values atof_plain example_lines 12 g_numPixels = replicate g_numPixels (FFinite False 500.5)"
  "table_values atof_plain example_lines (13 + g_numPixels) g_numPixels = replicate g_numPixels (FFinite False 1)"
  by (simp_all add: table_values_def list_eq_iff_nth_eq example_lines_nth atof_plain_examples)

lemma example_header:
  "explode (example_lines ! 0) CHR '' '' = [''LR1'', ''c.N'', ''1234'']"
  "Trim ''LR1'' = ''LR1''" "Trim ''1234'' = ''1234''"
  by (simp_all add: example_lines_def explode_def Trim_def isspace_def)

lemma ReadCalData_example:
  "ReadCalData atof_plain g_numPixels 0 example_blob empty_cal =
   Inr (empty_cal\<lparr>g_model := ''LR1'', g_serial := ''1234'',
          g_wavelengths := replicate g_numPixels (FFinite False 500.5),
          g_sensorResponse := replicate g_numPixels (FFinite False 1)\<rparr>)"
proof -
  have "ReadCalData atof_plain g_numPixels 0 example_blob empty_cal =
         Inr (empty_cal\<lparr>g_model := Trim (explode (cal_lines example_blob ! 0) CHR '' '' ! 0),
                     g_serial := Trim (explode (cal_lines example_blob ! 0) CHR '' '' ! 2),
                     g_wavelengths := g_wavelengths empty_cal @ table_values atof_plain (cal_lines example_blob) 12 g_numPixels,
                     g_sensorResponse := g_sensorResponse empty_cal @ table_values atof_plain (cal_lines example_blob) (13 + g_numPixels) g_numPixels\<rparr>)"
    by (rule ReadCalData_success)
       (simp_all add: cal_lines_example length_example_lines example_header, simp_all add: g_numPixels_def)
  then show ?thesis
    by (simp add: cal_lines_example example_header table_values_example empty_cal_def)
qed


text \<open>
  Claim C9, amended. A parse that succeeds appends to each vector the \<open>P\<close> values of its
  table, which depend on the blob alone and not on what the vectors held. So two parses
  of one blob, each started from empty vectors, give the same vectors of length \<open>P\<close>; a
  second parse on the state the first one left succeeds as well and leaves each vector
  as the first result followed by the same \<open>P\<close> values again.
\<close>

theorem calibration_parse_appends:
  assumes "ReadCalData atof P err buf cal = Inr cal'"
  shows "g_wavelengths cal' = g_wavelengths cal @ table_values atof (cal_lines buf) 12 P \<and>
         g_sensorResponse cal' = g_sensorResponse cal @ table_values atof (cal_lines buf) (13 + P) P \<and>
         length (table_values atof (cal_lines buf) 12 P) = P \<and>
         length (table_values atof (cal_lines buf) (13 + P) P) = P \<and>
         (\<exists>cal''. parse_twice atof P err buf cal = Inr cal'' \<and>
            g_wavelengths cal'' =
              g_wavelengths cal @ table_values atof (cal_lines buf) 12 P @ table_values atof (cal_lines buf) 12 P \<and>
            g_sensorResponse cal'' =
              g_sensorResponse cal @ table_values atof (cal_lines buf) (13 + P) P @
              table_values atof (cal_lines buf) (13 + P) P)"
proof -
  from ReadCalData_Inr [OF assms]
  have c: "err = 0" "0 < P" "13 + 2 * P \<le> length (cal_lines buf)"
    "2 < length (explode (cal_lines buf ! 0) CHR '' '')"
    "2365 < length (g_sensorResponse cal) + P"
    and w: "g_wavelengths cal' = g_wavelengths cal @ table_values atof (cal_lines buf) 12 P"
    and r: "g_sensorResponse cal' = g_sensorResponse cal @ table_values atof (cal_lines buf) (13 + P) P"
    by simp_all
  from c(5) r have "2365 < length (g_sensorResponse cal') + P"
    by simp
  from ReadCalData_success [OF c(1-4) this, of atof]
  have "parse_twice atof P err buf cal =
      Inr (cal'\<lparr>g_model := Trim (explode (cal_lines buf ! 0) CHR '' '' ! 0),
                 g_serial := Trim (explode (cal_lines buf ! 0) CHR '' '' ! 2),
                 g_wavelengths := g_wavelengths cal' @ table_values atof (cal_lines buf) 12 P,
                 g_sensorResponse := g_sensorResponse cal' @ table_values atof (cal_lines buf) (13 + P) P\<rparr>)"
    by (simp add: parse_twice_def assms)
  then have "\<exists>cal''. parse_twice atof P err buf cal = Inr cal'' \<and>
      g_wavelengths cal'' = g_wavelengths cal' @ table_values atof (cal_lines buf) 12 P \<and>
      g_sensorResponse cal'' = g_sensorResponse cal' @ table_values atof (cal_lines buf) (13 + P) P"
    by simp
  with w r show ?thesis
    by simp
qed

lemma empty_cal_vectors: "g_wavelengths empty_cal = []" "g_sensorResponse empty_cal = []"
  by (simp_all add: empty_cal_def)

theorem calibration_parse_appends_witness:
  "ReadCalData atof_plain g_numPixels 0 example_blob empty_cal =
     Inr (empty_cal\<lparr>g_model := ''LR1'', g_serial := ''1234'',
            g_wavelengths := replicate g_numPixels (FFinite False 500.5),
            g_sensorResponse := replicate g_numPixels (FFinite False 1)\<rparr>) \<and>
   (\<exists>cal''. parse_twice atof_plain g_numPixels 0 example_blob empty_cal = Inr cal'' \<and>
      g_wavelengths cal'' =
        replicate g_numPixels (FFinite False 500.5) @ replicate g_numPixels (FFinite False 500.5) \<and>
      g_sensorResponse cal'' =
        replicate g_numPixels (FFinite False 1) @ replicate g_numPixels (FFinite False 1))"
proof -
  from calibration_parse_appends [OF ReadCalData_example]
  have "\<exists>cal''. parse_twice atof_plain g_numPixels 0 example_blob empty_cal = Inr cal'' \<and>
      g_wavelengths cal'' =
        g_wavelengths empty_cal @ table_values atof_plain (cal_lines example_blob) 12 g_numPixels @
        table_values atof_plain (cal_lines example_blob) 12 g_numPixels \<and>
      g_sensorResponse cal'' =
        g_sensorResponse empty_cal @
        table_values atof_plain (cal_lines example_blob) (13 + g_numPixels) g_numPixels @
        table_values atof_plain (cal_lines example_blob) (13 + g_numPixels) g_numPixels"
    by blast
  then have "\<exists>cal''. parse_twice atof_plain g_numPixels 0 example_blob empty_cal = Inr cal'' \<and>
      g_wavelengths cal'' =
        replicate g_numPixels (FFinite False 500.5) @ replicate g_numPixels (FFinite False 500.5) \<and>
      g_sensorResponse cal'' =
        replicate g_numPixels (FFinite False 1) @ replicate g_numPixels (FFinite False 1)"
    by (simp only: cal_lines_example table_values_example empty_cal_vectors append_Nil)
  with ReadCalData_example show ?thesis
    by (rule conjI)
qed

text \<open>
  As stated, the claim fails: parsing the example image twice in a row leaves vectors of
  7306 entries where one parse leaves 3653.
\<close>

theorem calibration_parse_twice_doubles_counterexample:
  "vector_lengths (ReadCalData atof_plain g_numPixels 0 example_blob empty_cal) = Some (3653, 3653) \<and>
   vector_lengths (parse_twice atof_plain g_numPixels 0 example_blob empty_cal) = Some (7306, 7306) \<and>
   parse_twice atof_plain g_numPixels 0 example_blob empty_cal \<noteq>
     ReadCalData atof_plain g_numPixels 0 example_blob empty_cal"
proof -
  let ?c1 = "empty_cal\<lparr>g_model := ''LR1'', g_serial := ''1234'',
          g_wavelengths := replicate g_numPixels (FFinite False 500.5),
          g_sensorResponse := replicate g_numPixels (FFinite False 1)\<rparr>"
  have "vector_lengths (Inr ?c1) = Some (3653, 3653)"
    by (simp add: vector_lengths_def g_numPixels_def)
  then have 1: "vector_lengths (ReadCalData atof_plain g_numPixels 0 example_blob empty_cal) = Some (3653, 3653)"
    by (simp only: ReadCalData_example)
  have "ReadCalData atof_plain g_numPixels 0 example_blob ?c1 =
         Inr (?c1\<lparr>g_model := Trim (explode (cal_lines example_blob ! 0) CHR '' '' ! 0),
                     g_serial := Trim (explode (cal_lines example_blob ! 0) CHR '' '' ! 2),
                     g_wavelengths := g_wavelengths ?c1 @ table_values atof_plain (cal_lines example_blob) 12 g_numPixels,
                     g_sensorResponse := g_sensorResponse ?c1 @ table_values atof_plain (cal_lines example_blob) (13 + g_numPixels) g_numPixels\<rparr>)"
    by (rule ReadCalData_success)
       (simp_all add: cal_lines_example length_example_lines example_header, simp_all add: g_numPixels_def)
  then have "parse_twice atof_plain g_numPixels 0 example_blob empty_cal =
         Inr (?c1\<lparr>g_model := Trim (explode (cal_lines example_blob ! 0) CHR '' '' ! 0),
                     g_serial := Trim (explode (cal_lines example_blob ! 0) CHR '' '' ! 2),
                     g_wavelengths := g_wavelengths ?c1 @ table_values atof_plain (cal_lines example_blob) 12 g_numPixels,
                     g_sensorResponse := g_sensorResponse ?c1 @ table_values atof_plain (cal_lines example_blob) (13 + g_numPixels) g_numPixels\<rparr>)"
    by (simp only: parse_twice_def ReadCalData_example then_do_Inr)
  then have 2: "vector_lengths (parse_twice atof_plain g_numPixels 0 example_blob empty_cal) = Some (7306, 7306)"
    by (simp add: vector_lengths_def g_numPixels_def)
  have "parse_twice atof_plain g_numPixels 0 example_blob empty_cal \<noteq>
     ReadCalData atof_plain g_numPixels 0 example_blob empty_cal"
  proof
    assume "parse_twice atof_plain g_numPixels 0 example_blob empty_cal =
      ReadCalData atof_plain g_numPixels 0 example_blob empty_cal"
    with 1 2 have "Some (7306 :: nat, 7306 :: nat) = Some (3653, 3653)"
      by simp
    then show False
      by simp
  qed
  with 1 2 show ?thesis
    by blast
qed

text \<open>
  Claim C6. A flash image holding only the header line: \<^verbatim>\<open>ReadCalData\<close> makes no check of the
  line count and reads \<^verbatim>\<open>lines[12]\<close> of a one-element vector. The outcome is the
  out-of-range read, not a format error (the function has none); by
  \<open>ReadCalData_too_few_lines\<close> the same holds for every image with fewer than \<open>13 + 2 * P\<close>
  lines.
\<close>

theorem short_blob_indexes_out_of_range:
  "ReadCalData atof g_numPixels 0 (''LR1 c.N 1234'' @ [nl] @ replicate (ncal - 13) (CHR 0x00)) cal
     = Inl IndexOutOfBounds"
proof -
  have "cal_lines (''LR1 c.N 1234'' @ [nl] @ replicate (ncal - 13) (CHR 0x00)) = [''LR1 c.N 1234'']"
    by (simp add: cal_lines_def ncal_def explode_def takeWhile_tail)
  then show ?thesis
    by (intro ReadCalData_too_few_lines) simp_all
qed

section \<open>The exposure command\<close>

lemma exposure_throw_propagates:
  "base line subject ''EXPOSURE'' (a # args) = None \<Longrightarrow> stod a = Inl f \<Longrightarrow>
   OnCommand base stod setExposure s line subject ''EXPOSURE'' (a # args) = ([MutexLock, MutexUnlock], s, Inl f)"
  by (simp add: OnCommand_def at_index_def)

lemma exposure_device_error_logged:
  "base line subject ''EXPOSURE'' (a # args) = None \<Longrightarrow> stod a = Inr v \<Longrightarrow>
   setExposure (v * (1 / 10 ^ 10)) = err \<Longrightarrow> err \<noteq> 0 \<Longrightarrow>
   OnCommand base stod setExposure s line subject ''EXPOSURE'' (a # args) =
     ([MutexLock, SetExposure (v * (1 / 10 ^ 10)) err,
       LogError (''failed to set exposure, code %d'' @ [nl]) [ArgInt err], MutexUnlock], s, Inr True)"
  by (simp add: OnCommand_def at_index_def Let_def)

text \<open>
  Claim C8. An \<^verbatim>\<open>EXPOSURE\<close> command without argument reads \<^verbatim>\<open>args[0]\<close> of an empty vector, and
  one whose argument \<^verbatim>\<open>std::stod\<close> rejects lets the exception leave \<^verbatim>\<open>OnCommand\<close>: in both
  cases the handler does not return, so nothing in it confines the failure to the one
  command. The flags are unchanged and no exposure is set. (A device error of
  \<^verbatim>\<open>setExposure\<close> is logged with its code and the handler returns normally:
  \<open>exposure_device_error_logged\<close>.)
\<close>

theorem exposure_bad_argument_leaves_handler:
  "OnCommand (\<lambda>line subject cmd args. None) stod setExposure s ''EXPOSURE'' [] ''EXPOSURE'' []
     = ([MutexLock], s, Inl IndexOutOfBounds) \<and>
   OnCommand (\<lambda>line subject cmd args. None) (\<lambda>a. Inl StdInvalidArgument) setExposure s
       ''EXPOSURE abc'' [] ''EXPOSURE'' [''abc'']
     = ([MutexLock, MutexUnlock], s, Inl StdInvalidArgument)"
  by (simp add: OnCommand_def at_index_def)

section \<open>Serialized device access\<close>

lemma events_of_Cons:
  "events_of t ((t', e) # tr) = (if t' = t then e # events_of t tr else events_of t tr)"
  by (simp add: events_of_def)

lemma events_of_Nil [simp]: "events_of t [] = []"
  by (simp add: events_of_def)

lemma streamer_disc_prefix: "streamer_disc q (xs @ ys) \<Longrightarrow> streamer_disc q xs"
  by (induction q xs rule: streamer_disc.induct) simp_all

lemma control_disc_prefix: "control_disc h (xs @ ys) \<Longrightarrow> control_disc h xs"
  by (induction h xs rule: control_disc.induct) auto

lemma WaveformServerThread_pass_disc:
  "streamer_disc SOut (fst (WaveformServerThread_pass P s io) @ rest) = streamer_disc SOut rest"
  by (simp add: WaveformServerThread_pass_def Let_def split: sum.splits)

lemma WaveformServerThread_events_disc: "streamer_disc SOut (WaveformServerThread_events P envs)"
proof (induction envs)
  case Nil
  show ?case by simp
next
  case (Cons env envs)
  obtain s io where env: "env = (s, io)"
    by (cases env)
  obtain evs s' c where p: "WaveformServerThread_pass P s io = (evs, s', c)"
    by (cases "WaveformServerThread_pass P s io")
  from WaveformServerThread_pass_disc [of P s io] p
  have d: "streamer_disc SOut (evs @ rest) = streamer_disc SOut rest" for rest
    by simp
  show ?case
  proof (cases c)
    case Continue
    with env p Cons.IH show ?thesis
      by (simp add: d)
  next
    case Break
    with env p d [of "[]"] show ?thesis
      by simp
  next
    case (Faulted f)
    with env p d [of "[]"] show ?thesis
      by simp
  qed
qed

lemma OnCommand_disc:
  assumes "OnCommand base stod setExposure s line subject cmd args = (evs, s', r)"
  shows "control_disc False evs \<and>
         (r \<noteq> Inl IndexOutOfBounds \<longrightarrow> control_disc False (evs @ rest) = control_disc False rest)"
  using assms
  by (auto simp add: OnCommand_def Let_def at_index_def split: option.splits sum.splits if_splits)

lemma OnQuery_disc:
  assumes "OnQuery qbase P cal line subject cmd = (evs, r)"
  shows "control_disc False (evs @ rest) = control_disc False rest"
  using assms by (auto simp add: OnQuery_def split: sum.splits if_splits)

lemma line_events_disc:
  assumes "line_events base qbase stod P cal l = (evs, r)"
  shows "control_disc False evs \<and>
         (r \<noteq> Inl IndexOutOfBounds \<longrightarrow> control_disc False (evs @ rest) = control_disc False rest)"
proof (cases l)
  case (Command s setExposure line subject cmd args)
  obtain s' where "OnCommand base stod setExposure s line subject cmd args = (evs, s', r)"
    using assms Command by (cases "OnCommand base stod setExposure s line subject cmd args") simp
  then show ?thesis
    by (rule OnCommand_disc)
next
  case (Query line subject cmd)
  with assms have q: "OnQuery qbase P cal line subject cmd = (evs, r)"
    by simp
  from OnQuery_disc [OF q, of rest] OnQuery_disc [OF q, of "[]"] show ?thesis
    by simp
qed

lemma control_events_disc: "control_disc False (control_events base qbase stod P cal ls)"
proof (induction ls)
  case Nil
  show ?case by simp
next
  case (Cons l ls)
  obtain evs r where o: "line_events base qbase stod P cal l = (evs, r)"
    by (cases "line_events base qbase stod P cal l")
  note d = line_events_disc [OF o, of "control_events base qbase stod P cal ls"]
  show ?case
  proof (cases "r = Inl IndexOutOfBounds")
    case True
    with o d show ?thesis
      by simp
  next
    case False
    with d Cons.IH have "control_disc False (evs @ control_events base qbase stod P cal ls)"
      by simp
    with o False show ?thesis
      by (auto split: sum.splits fault.splits)
  qed
qed

lemma serialized_by_discipline:
  assumes "mutex_ok h tr"
    and "streamer_disc q (events_of Streamer tr)"
    and "control_disc c (events_of Control tr)"
    and "(h = Some Streamer) = (q \<noteq> SOut)"
    and "(h = Some Control) = c"
    and "f = (q = SFlight)"
  shows "serialized f tr"
  using assms
proof (induction tr arbitrary: h q c f)
  case Nil
  show ?case by simp
next
  case (Cons x tr)
  obtain t e where x: "x = (t, e)"
    by (cases x)
  show ?case
  proof (cases t)
    case Streamer
    show ?thesis
    proof (cases e)
      case MutexLock
      with x Streamer Cons.prems show ?thesis
        by (auto simp add: events_of_Cons intro!: Cons.IH [where h = "Some Streamer" and q = SIn and c = c])
    next
      case MutexUnlock
      with x Streamer Cons.prems show ?thesis
        by (auto simp add: events_of_Cons intro!: Cons.IH [where h = None and q = SOut and c = c])
    next
      case (TriggerAcquisition err)
      with x Streamer Cons.prems show ?thesis
        by (auto simp add: events_of_Cons intro!: Cons.IH [where h = h and q = SFlight and c = c])
    next
      case (GetFrame err)
      with x Streamer Cons.prems show ?thesis
        by (auto simp add: events_of_Cons intro!: Cons.IH [where h = h and q = SIn and c = c])
    next
      case (SetExposure v err)
      with x Streamer Cons.prems show ?thesis
        by (simp add: events_of_Cons)
    qed (use x Streamer Cons.prems in
          \<open>auto simp add: events_of_Cons intro!: Cons.IH [where h = h and q = q and c = c]\<close>)
  next
    case Control
    show ?thesis
    proof (cases e)
      case MutexLock
      with x Control Cons.prems show ?thesis
        by (auto simp add: events_of_Cons intro!: Cons.IH [where h = "Some Control" and q = q and c = True])
    next
      case MutexUnlock
      with x Control Cons.prems show ?thesis
        by (auto simp add: events_of_Cons intro!: Cons.IH [where h = None and q = q and c = False])
    next
      case (TriggerAcquisition err)
      with x Control Cons.prems show ?thesis
        by (simp add: events_of_Cons)
    next
      case (GetFrame err)
      with x Control Cons.prems show ?thesis
        by (simp add: events_of_Cons)
    next
      case (SetExposure v err)
      with x Control Cons.prems show ?thesis
        by (auto simp add: events_of_Cons intro!: Cons.IH [where h = h and q = q and c = c])
    qed (use x Control Cons.prems in
          \<open>auto simp add: events_of_Cons intro!: Cons.IH [where h = h and q = q and c = c]\<close>)
  qed
qed

text \<open>
  Claim C1. Take any execution that respects the mutex, in which the data-plane thread
  has performed a prefix of the events of its loop (whatever flags each pass reads and
  whatever the device answers) and the control-plane thread a prefix of the events of its
  command and query handlers. Then no acquisition is triggered while one is in flight,
  every fetch ends the acquisition in flight, and no exposure is set between a trigger and
  its fetch: an \<^verbatim>\<open>EXPOSURE\<close> command takes effect before the trigger or after the fetch.
\<close>

theorem device_access_serialized:
  assumes "mutex_ok None tr"
    and "prefix (events_of Streamer tr) (WaveformServerThread_events P envs)"
    and "prefix (events_of Control tr) (control_events base qbase stod P' cal ls)"
  shows "serialized False tr"
proof -
  from assms(2) have "streamer_disc SOut (events_of Streamer tr)"
    using WaveformServerThread_events_disc [of P envs] by (auto simp add: prefix_def dest: streamer_disc_prefix)
  moreover from assms(3) have "control_disc False (events_of Control tr)"
    using control_events_disc [of base qbase stod P' cal ls]
    by (auto simp add: prefix_def dest: control_disc_prefix)
  ultimately show ?thesis
    using assms(1) by (intro serialized_by_discipline [where h = None and c = False and q = SOut]) simp_all
qed


theorem device_access_serialized_witness:
  "mutex_ok None
     [(Streamer, MutexLock), (Control, SendReply ''1''), (Streamer, TriggerAcquisition 0),
      (Streamer, GetFrame 0), (Streamer, MutexUnlock), (Control, MutexLock),
      (Control, SetExposure (5 * (1 / 10 ^ 10)) 0), (Control, MutexUnlock),
      (Streamer, SendLooped [FFinite False 5] 4)] \<and>
   prefix
     (events_of Streamer
       [(Streamer, MutexLock), (Control, SendReply ''1''), (Streamer, TriggerAcquisition 0),
        (Streamer, GetFrame 0), (Streamer, MutexUnlock), (Control, MutexLock),
        (Control, SetExposure (5 * (1 / 10 ^ 10)) 0), (Control, MutexUnlock),
        (Streamer, SendLooped [FFinite False 5] 4)])
     (WaveformServerThread_events 1
       [(\<lparr>g_triggerArmed = True, g_triggerOneShot = False, g_waveformThreadQuit = False\<rparr>,
         \<lparr>trigger_err = 0, getFrame_err = 0, getFrame_pixels = replicate 33 5, send_ok = True\<rparr>)]) \<and>
   prefix
     (events_of Control
       [(Streamer, MutexLock), (Control, SendReply ''1''), (Streamer, TriggerAcquisition 0),
        (Streamer, GetFrame 0), (Streamer, MutexUnlock), (Control, MutexLock),
        (Control, SetExposure (5 * (1 / 10 ^ 10)) 0), (Control, MutexUnlock),
        (Streamer, SendLooped [FFinite False 5] 4)])
     (control_events (\<lambda>line subject cmd args. None) (\<lambda>line subject cmd. False) (\<lambda>a. Inr 5) 1 empty_cal
       [Query ''POINTS?'' [] ''POINTS'',
        Command \<lparr>g_triggerArmed = True, g_triggerOneShot = False, g_waveformThreadQuit = False\<rparr>
          (\<lambda>x. 0) ''EXPOSURE 5'' [] ''EXPOSURE'' [''5'']]) \<and>
   serialized False
     [(Streamer, MutexLock), (Control, SendReply ''1''), (Streamer, TriggerAcquisition 0),
      (Streamer, GetFrame 0), (Streamer, MutexUnlock), (Control, MutexLock),
      (Control, SetExposure (5 * (1 / 10 ^ 10)) 0), (Control, MutexUnlock),
      (Streamer, SendLooped [FFinite False 5] 4)]"
proof -
  let ?tr = "[(Streamer, MutexLock), (Control, SendReply ''1''), (Streamer, TriggerAcquisition 0),
      (Streamer, GetFrame 0), (Streamer, MutexUnlock), (Control, MutexLock),
      (Control, SetExposure (5 * (1 / 10 ^ 10)) 0), (Control, MutexUnlock),
      (Streamer, SendLooped [FFinite False 5] 4)]"
  let ?envs = "[(\<lparr>g_triggerArmed = True, g_triggerOneShot = False, g_waveformThreadQuit = False\<rparr>,
         \<lparr>trigger_err = 0, getFrame_err = 0, getFrame_pixels = replicate 33 (5 :: 16 word), send_ok = True\<rparr>)]"
  let ?ls = "[Query ''POINTS?'' [] ''POINTS'',
        Command \<lparr>g_triggerArmed = True, g_triggerOneShot = False, g_waveformThreadQuit = False\<rparr>
          (\<lambda>x :: real. 0 :: int) ''EXPOSURE 5'' [] ''EXPOSURE'' [''5'']]"
  have m: "mutex_ok None ?tr"
    by simp
  have s: "prefix (events_of Streamer ?tr) (WaveformServerThread_events 1 ?envs)"
    by (simp add: events_of_def WaveformServerThread_pass_def flatten_def float_of_uint16_def sizeof_float_def)
  have c: "prefix (events_of Control ?tr)
      (control_events (\<lambda>line subject cmd args. None) (\<lambda>line subject cmd. False) (\<lambda>a. Inr 5) 1 empty_cal ?ls)"
    by (simp add: events_of_def OnCommand_def OnQuery_def at_index_def to_string_int_def
        dec_digits.simps digit_char_def)
  from device_access_serialized [OF m s c] m s c show ?thesis
    by (intro conjI)
qed

text \<open>The interleaving the claim excludes is not an execution: the second lock finds the mutex held.\<close>

lemma lock_excludes_interleaving:
  "\<not> mutex_ok None
     [(Streamer, MutexLock), (Streamer, TriggerAcquisition 0), (Control, MutexLock),
      (Control, SetExposure 1 0), (Control, MutexUnlock), (Streamer, GetFrame 0), (Streamer, MutexUnlock)]"
  by simp

end
